theory Spec2Isabelle
  imports Main "HOL-Library.Sublist"
begin

section \<open>The session bridge of docker-pty-proxy (package handler)\<close>

text \<open>
  The development follows the exec-based handler of package \<^verbatim>\<open>handler\<close>:
  \<^verbatim>\<open>attachHandler\<close> (the WebSocket to exec bridge) and \<^verbatim>\<open>resizeHandler\<close>
  (the HTTP resize endpoint).

  The handler talks to three collaborators that are not part of the repository: the
  Docker client, the gorilla WebSocket connection and Go's standard library. What they
  answer is input of the model: every call the code makes is an event of a trace, and
  the answer to each call is read from a script. A script is a finite list, one entry per
  loop iteration; an entry holds what each call of that iteration returns if the
  iteration makes it. When a script is used up the next read never returns, and the loop
  is blocked in it.
\<close>

subsection \<open>Data\<close>

type_synonym bytes = string

text \<open>\<^verbatim>\<open>const ( readBufSize = 4096; writeDeadline = 10 * time.Second )\<close>, the deadline in seconds.\<close>

definition readBufSize :: nat where
  "readBufSize = 4096"

definition writeDeadline :: nat where
  "writeDeadline = 10"

text \<open>
  \<^verbatim>\<open>type resizeMsg struct { Type string; Cols uint; Rows uint }\<close>. No arithmetic is done on
  the two dimensions, so they are natural numbers.
\<close>

record resizeMsg =
  Type :: string
  Cols :: nat
  Rows :: nat

text \<open>The message types of the WebSocket library, integers in Go.\<close>

definition TextMessage :: int where
  "TextMessage = 1"

definition BinaryMessage :: int where
  "BinaryMessage = 2"

definition CloseMessage :: int where
  "CloseMessage = 8"

definition CloseNormalClosure :: nat where
  "CloseNormalClosure = 1000"

definition CloseGoingAway :: nat where
  "CloseGoingAway = 1001"

text \<open>
  Errors. A read of the exec stream fails with the sentinel \<^verbatim>\<open>io.EOF\<close> or with some other
  error, kept by its text. A read of the WebSocket fails with a \<^verbatim>\<open>*CloseError\<close> carrying a
  close code, or with some other error. Errors of the Docker client and of writes are
  kept by their text (\<^verbatim>\<open>err.Error()\<close>).
\<close>

datatype read_error = EOF | ReadErr string

datatype ws_error = CloseError nat | WsErr string

text \<open>The lines the handler logs, one constructor per \<^verbatim>\<open>log.Printf\<close> of the source.\<close>

datatype log_line =
    UpgradeFailed string
  | CreatingExec string
  | ExecCreateError string
  | ExecAttachError string
  | Attached string string
  | WriteWsFailed string
  | ReadDockerFailed string
  | ReadWsFailed ws_error
  | ResizeFailed string
  | WriteDockerFailed string
  | SessionEnded string string

text \<open>
  The calls the handlers make on their collaborators. \<open>HttpError msg code\<close> is
  \<^verbatim>\<open>http.Error(w, msg, code)\<close>; \<open>WriteHeader\<close> and \<open>ResponseWrite\<close> are \<^verbatim>\<open>w.WriteHeader\<close> and
  \<^verbatim>\<open>w.Write\<close>. \<open>ReaderRead n d e\<close> is a call of
  \<^verbatim>\<open>hijack.Reader.Read(buf)\<close> on a buffer of \<open>n\<close> bytes that returned the bytes \<open>d\<close>
  (\<^verbatim>\<open>buf[:n]\<close>) and the error \<open>e\<close>; \<open>ReadMessage mt p e\<close> is a call of \<^verbatim>\<open>ws.ReadMessage()\<close>
  with its three results. \<open>ContainerExecResize x h w\<close> carries the exec ID, then
  \<^verbatim>\<open>Height\<close>, then \<^verbatim>\<open>Width\<close>; \<open>ContainerResize c h w\<close> the container ID, then \<^verbatim>\<open>Height\<close>, then
  \<^verbatim>\<open>Width\<close>.
\<close>

datatype event =
    HttpError string nat
  | Upgrade
  | ContainerExecCreate string
  | ContainerExecAttach string
  | ContainerExecResize string nat nat
  | ContainerResize string nat nat
  | WriteHeader nat
  | ResponseWrite bytes
  | ReaderRead nat bytes "read_error option"
  | SetWriteDeadline nat
  | WriteMessage int bytes
  | ReadMessage int bytes "ws_error option"
  | ConnWrite bytes
  | Log log_line
  | WgAdd int
  | GoOutbound
  | GoInbound
  | WgWait
  | WgDone
  | Cancel
  | HijackClose
  | WsClose

subsection \<open>The outbound loop: exec stream to WebSocket\<close>

text \<open>
  One entry of the outbound script: the bytes and the error the read returns, and the
  error \<^verbatim>\<open>ws.WriteMessage\<close> returns in this iteration if it is called (a missed write
  deadline is one such error).
\<close>

record out_io =
  rd_data :: bytes
  rd_err :: "read_error option"
  wr_err :: "string option"

text \<open>
  The body of the \<^verbatim>\<open>for\<close> loop, lines 102 to 115. The result is the calls made and whether
  the loop goes round again (\<open>False\<close> is a \<^verbatim>\<open>return\<close>).
\<close>

definition outboundIter :: "out_io \<Rightarrow> event list \<times> bool" where
  "outboundIter io =
     (let n = length (rd_data io);
          rd = [ReaderRead readBufSize (rd_data io) (rd_err io)];
          wr = (if n > 0
                then [SetWriteDeadline writeDeadline, WriteMessage BinaryMessage (rd_data io)]
                else [])
      in if n > 0 \<and> wr_err io \<noteq> None
         then (rd @ wr @ [Log (WriteWsFailed (the (wr_err io)))], False)
         else (case rd_err io of
                 None \<Rightarrow> (rd @ wr, True)
               | Some EOF \<Rightarrow> (rd @ wr, False)
               | Some (ReadErr e) \<Rightarrow> (rd @ wr @ [Log (ReadDockerFailed e)], False)))"

datatype loop_status = Returned | Blocked

fun outboundLoop :: "out_io list \<Rightarrow> event list \<times> loop_status" where
  "outboundLoop [] = ([], Blocked)"
| "outboundLoop (io # rest) =
     (case outboundIter io of
        (evs, True) \<Rightarrow> (case outboundLoop rest of (evs', st) \<Rightarrow> (evs @ evs', st))
      | (evs, False) \<Rightarrow> (evs, Returned))"

text \<open>What a trace read from the exec stream, and what it handed to the WebSocket.\<close>

fun reads_of :: "event list \<Rightarrow> bytes list" where
  "reads_of [] = []"
| "reads_of (ReaderRead n d e # evs) = d # reads_of evs"
| "reads_of (_ # evs) = reads_of evs"

fun frames_of :: "event list \<Rightarrow> (int \<times> bytes) list" where
  "frames_of [] = []"
| "frames_of (WriteMessage mt d # evs) = (mt, d) # frames_of evs"
| "frames_of (_ # evs) = frames_of evs"

text \<open>The lines a trace logged.\<close>

fun logs_of :: "event list \<Rightarrow> log_line list" where
  "logs_of [] = []"
| "logs_of (Log l # evs) = l # logs_of evs"
| "logs_of (_ # evs) = logs_of evs"

text \<open>
  The script entry at which the loop returns, if it returns: the first one whose
  iteration does not go round again.
\<close>

fun exit_io :: "out_io list \<Rightarrow> out_io option" where
  "exit_io [] = None"
| "exit_io (io # rest) = (if snd (outboundIter io) then exit_io rest else Some io)"

subsection \<open>The inbound loop: WebSocket to exec stream\<close>

text \<open>
  One entry of the inbound script: the three results of \<^verbatim>\<open>ws.ReadMessage()\<close>, and the errors
  that \<^verbatim>\<open>cli.ContainerExecResize\<close> and \<^verbatim>\<open>hijack.Conn.Write\<close> return in this iteration if they
  are called.
\<close>

record ws_in =
  in_mt :: int
  in_payload :: bytes
  in_err :: "ws_error option"
  resize_err :: "string option"
  conn_err :: "string option"

text \<open>
  \<^verbatim>\<open>websocket.IsUnexpectedCloseError(err, expectedCodes...)\<close>: true for a close error whose
  code is not among the expected ones, false for any other error.
\<close>

definition IsUnexpectedCloseError :: "ws_error \<Rightarrow> nat list \<Rightarrow> bool" where
  "IsUnexpectedCloseError err expectedCodes =
     (case err of CloseError code \<Rightarrow> code \<notin> set expectedCodes | WsErr _ \<Rightarrow> False)"

text \<open>
  The body of the \<^verbatim>\<open>for\<close> loop, lines 124 to 155. \<^verbatim>\<open>json.Unmarshal\<close> into a fresh
  \<^verbatim>\<open>resizeMsg\<close> is a parameter: \<open>unmarshal p\<close> is \<open>Some msg\<close> when the call returns a nil error
  and leaves \<open>msg\<close> in the struct, and \<open>None\<close> when it returns an error. \<open>payload[0]\<close> is read
  only after the length check, as in the source.
\<close>

definition inboundIter ::
  "(bytes \<Rightarrow> resizeMsg option) \<Rightarrow> string \<Rightarrow> ws_in \<Rightarrow> event list \<times> bool" where
  "inboundIter unmarshal execID m =
     (let payload = in_payload m;
          rd = [ReadMessage (in_mt m) payload (in_err m)];
          forward = (case conn_err m of
                       Some e \<Rightarrow> (rd @ [ConnWrite payload, Log (WriteDockerFailed e)], False)
                     | None \<Rightarrow> (rd @ [ConnWrite payload], True))
      in case in_err m of
           Some e \<Rightarrow>
             (rd @ (if IsUnexpectedCloseError e [CloseGoingAway, CloseNormalClosure]
                    then [Log (ReadWsFailed e)] else []), False)
         | None \<Rightarrow>
             if in_mt m = CloseMessage then (rd, False)
             else if length payload = 0 then (rd, True)
             else if hd payload = CHR ''{''
             then (case unmarshal payload of
                     None \<Rightarrow> forward
                   | Some msg \<Rightarrow>
                       if Type msg = ''resize''
                       then (rd @ [ContainerExecResize execID (Rows msg) (Cols msg)] @
                               (case resize_err m of
                                  Some e \<Rightarrow> [Log (ResizeFailed e)]
                                | None \<Rightarrow> []), True)
                       else forward)
             else forward)"

fun inboundLoop ::
  "(bytes \<Rightarrow> resizeMsg option) \<Rightarrow> string \<Rightarrow> ws_in list \<Rightarrow> event list \<times> loop_status" where
  "inboundLoop unmarshal execID [] = ([], Blocked)"
| "inboundLoop unmarshal execID (m # rest) =
     (case inboundIter unmarshal execID m of
        (evs, True) \<Rightarrow>
          (case inboundLoop unmarshal execID rest of (evs', st) \<Rightarrow> (evs @ evs', st))
      | (evs, False) \<Rightarrow> (evs, Returned))"

text \<open>What a trace wrote to the exec input, and the resize calls it made.\<close>

fun conn_writes_of :: "event list \<Rightarrow> bytes list" where
  "conn_writes_of [] = []"
| "conn_writes_of (ConnWrite p # evs) = p # conn_writes_of evs"
| "conn_writes_of (_ # evs) = conn_writes_of evs"

fun resizes_of :: "event list \<Rightarrow> (string \<times> nat \<times> nat) list" where
  "resizes_of [] = []"
| "resizes_of (ContainerExecResize x h w # evs) = (x, h, w) # resizes_of evs"
| "resizes_of (_ # evs) = resizes_of evs"

text \<open>
  A resize frame: a message read without error that is not a close message, is not
  empty, starts with an opening brace, decodes without error and has the type
  \<^verbatim>\<open>"resize"\<close>.
\<close>

definition resize_frame :: "(bytes \<Rightarrow> resizeMsg option) \<Rightarrow> ws_in \<Rightarrow> bool" where
  "resize_frame unmarshal m =
     (in_err m = None \<and> in_mt m \<noteq> CloseMessage \<and> in_payload m \<noteq> [] \<and>
      hd (in_payload m) = CHR ''{'' \<and>
      (case unmarshal (in_payload m) of None \<Rightarrow> False | Some msg \<Rightarrow> Type msg = ''resize''))"

subsection \<open>The attach handler\<close>

text \<open>
  A request, as far as the handlers read it: the method and the query parameters.
  \<^verbatim>\<open>r.URL.Query()\<close> maps a key to the list of its values, and \<^verbatim>\<open>Get\<close> returns the first
  value, or the empty string when there is none.
\<close>

record request =
  req_method :: string
  req_query :: "string \<Rightarrow> string list"

definition Get :: "(string \<Rightarrow> string list) \<Rightarrow> string \<Rightarrow> string" where
  "Get q key = (case q key of [] \<Rightarrow> [] | v # _ \<Rightarrow> v)"

text \<open>
  What the collaborators answer during one call of the handler: the error of the upgrade,
  the error or the exec ID of \<^verbatim>\<open>ContainerExecCreate\<close>, the error of \<^verbatim>\<open>ContainerExecAttach\<close>,
  and the scripts of the two loops.
\<close>

record attach_env =
  upgrade_err :: "string option"
  exec_create :: "string + string"
  exec_attach_err :: "string option"
  out_script :: "out_io list"
  in_script :: "ws_in list"

text \<open>
  The calls of the handler's own goroutine, in order, lines 44 to 160. The deferred calls
  run at each \<^verbatim>\<open>return\<close>, last deferred first: \<^verbatim>\<open>hijack.Close()\<close> (once it is deferred),
  \<^verbatim>\<open>cancel()\<close>, \<^verbatim>\<open>ws.Close()\<close>. The result of writing the error frame is dropped by the
  source. \<open>GoOutbound\<close> and \<open>GoInbound\<close> are the two \<^verbatim>\<open>go\<close> statements.
\<close>

definition attachHandler :: "request \<Rightarrow> attach_env \<Rightarrow> event list" where
  \<open>attachHandler r env =
     (let containerID = Get (req_query r) ''id''
      in if containerID = [] then [HttpError ''missing "id" query parameter'' 400]
         else (case upgrade_err env of
            Some e \<Rightarrow> [Upgrade, Log (UpgradeFailed e)]
          | None \<Rightarrow>
              [Upgrade, Log (CreatingExec containerID), ContainerExecCreate containerID] @
              (case exec_create env of
                 Inl e \<Rightarrow>
                   [Log (ExecCreateError e),
                    WriteMessage TextMessage (''exec create error: '' @ e),
                    Cancel, WsClose]
               | Inr execID \<Rightarrow>
                   [ContainerExecAttach execID] @
                   (case exec_attach_err env of
                      Some e \<Rightarrow>
                        [Log (ExecAttachError e),
                         WriteMessage TextMessage (''exec attach error: '' @ e),
                         Cancel, WsClose]
                    | None \<Rightarrow>
                        [Log (Attached execID containerID),
                         WgAdd 2, GoOutbound, GoInbound, WgWait,
                         Log (SessionEnded containerID execID),
                         HijackClose, Cancel, WsClose]))))\<close>

text \<open>
  The calls of the two goroutines. Each defers \<^verbatim>\<open>wg.Done()\<close> and then \<^verbatim>\<open>cancel()\<close>, so a
  loop that returns calls \<^verbatim>\<open>cancel()\<close> and then \<^verbatim>\<open>wg.Done()\<close>; a loop blocked in a read calls
  neither.
\<close>

definition goroutine_calls :: "event list \<times> loop_status \<Rightarrow> event list" where
  "goroutine_calls r =
     (case r of (evs, Returned) \<Rightarrow> evs @ [Cancel, WgDone] | (evs, Blocked) \<Rightarrow> evs)"

definition outbound_calls :: "attach_env \<Rightarrow> event list" where
  "outbound_calls env = goroutine_calls (outboundLoop (out_script env))"

definition inbound_calls :: "(bytes \<Rightarrow> resizeMsg option) \<Rightarrow> attach_env \<Rightarrow> event list" where
  "inbound_calls unmarshal env =
     (case exec_create env of
        Inl _ \<Rightarrow> []
      | Inr execID \<Rightarrow> goroutine_calls (inboundLoop unmarshal execID (in_script env)))"

subsection \<open>The three goroutines of a session\<close>

text \<open>
  The state of one call of the handler: the calls each goroutine has still to make
  (\<open>None\<close> for a goroutine that is not started), the counter of the \<^verbatim>\<open>sync.WaitGroup\<close>, and
  the calls made so far, in the order they were made.
\<close>

record config =
  mainT :: "event list"
  outT :: "event list option"
  inT :: "event list option"
  wg :: int
  trace :: "event list"

datatype goroutine = Handler | Outbound | Inbound

text \<open>
  The wait group: \<^verbatim>\<open>Add\<close> and \<^verbatim>\<open>Done\<close> change the counter, and \<^verbatim>\<open>Wait\<close> can only be passed
  when the counter is zero. Every other call can always be made (whether it blocks or
  fails is in the scripts).
\<close>

definition enabled :: "event \<Rightarrow> int \<Rightarrow> bool" where
  "enabled e w = (if e = WgWait then w = 0 else True)"

definition wg_after :: "event \<Rightarrow> int \<Rightarrow> int" where
  "wg_after e w = (case e of WgAdd n \<Rightarrow> w + n | WgDone \<Rightarrow> w - 1 | _ \<Rightarrow> w)"

text \<open>
  One goroutine makes its next call; \<open>None\<close> when it has none to make or cannot make it
  now. \<open>po\<close> and \<open>pi\<close> are the calls of the two loops, which start at the \<^verbatim>\<open>go\<close> statements.
\<close>

definition step :: "event list \<Rightarrow> event list \<Rightarrow> goroutine \<Rightarrow> config \<Rightarrow> config option" where
  "step po pi g c =
     (case g of
        Handler \<Rightarrow>
          (case mainT c of
             [] \<Rightarrow> None
           | e # es \<Rightarrow>
               if enabled e (wg c)
               then Some (c\<lparr>mainT := es,
                            outT := (if e = GoOutbound then Some po else outT c),
                            inT := (if e = GoInbound then Some pi else inT c),
                            wg := wg_after e (wg c),
                            trace := trace c @ [e]\<rparr>)
               else None)
      | Outbound \<Rightarrow>
          (case outT c of
             Some (e # es) \<Rightarrow>
               if enabled e (wg c)
               then Some (c\<lparr>outT := Some es, wg := wg_after e (wg c), trace := trace c @ [e]\<rparr>)
               else None
           | _ \<Rightarrow> None)
      | Inbound \<Rightarrow>
          (case inT c of
             Some (e # es) \<Rightarrow>
               if enabled e (wg c)
               then Some (c\<lparr>inT := Some es, wg := wg_after e (wg c), trace := trace c @ [e]\<rparr>)
               else None
           | _ \<Rightarrow> None))"

text \<open>
  A schedule says which goroutine moves next. \<open>run\<close> follows a schedule; \<open>None\<close> when the
  schedule asks a goroutine to move that cannot.
\<close>

fun run :: "event list \<Rightarrow> event list \<Rightarrow> goroutine list \<Rightarrow> config \<Rightarrow> config option" where
  "run po pi [] c = Some c"
| "run po pi (g # gs) c =
     (case step po pi g c of None \<Rightarrow> None | Some c' \<Rightarrow> run po pi gs c')"

definition attach_session ::
  "(bytes \<Rightarrow> resizeMsg option) \<Rightarrow> request \<Rightarrow> attach_env \<Rightarrow> goroutine list \<Rightarrow> config option" where
  "attach_session unmarshal r env sched =
     run (outbound_calls env) (inbound_calls unmarshal env) sched
       \<lparr>mainT = attachHandler r env, outT = None, inT = None, wg = 0, trace = []\<rparr>"

subsection \<open>The resize endpoint\<close>

text \<open>
  \<^verbatim>\<open>strconv.ParseUint(s, 10, 32)\<close> of Go's standard library, which the repository calls and
  does not contain, written out from the library: the empty string and any byte that is
  not a decimal digit are syntax errors (no sign, no underscore in base 10), a value
  above \<open>2^32 - 1\<close> is a range error. The accumulator is a 64-bit unsigned integer, with
  the wrap-around written out.
\<close>

datatype num_error = ErrSyntax | ErrRange

fun parse_digits :: "nat \<Rightarrow> string \<Rightarrow> num_error + nat" where
  "parse_digits n [] = Inr n"
| "parse_digits n (c # cs) =
     (if 48 \<le> (of_char c :: nat) \<and> (of_char c :: nat) \<le> 57
      then (let d = (of_char c :: nat) - 48
            in if n \<ge> (2 ^ 64 - 1) div 10 + 1 then Inl ErrRange
               else (let n1 = (n * 10 + d) mod 2 ^ 64
                     in if n1 < n * 10 \<or> n1 > 2 ^ 32 - 1 then Inl ErrRange
                        else parse_digits n1 cs))
      else Inl ErrSyntax)"

definition ParseUint :: "string \<Rightarrow> num_error + nat" where
  "ParseUint s = (if s = [] then Inl ErrSyntax else parse_digits 0 s)"

text \<open>
  \<^verbatim>\<open>resizeHandler\<close>, lines 166 to 198: the calls it makes on the response writer and on the
  Docker client. \<open>resize_res\<close> is the error \<^verbatim>\<open>cli.ContainerResize\<close> returns if it is called.
\<close>

definition resizeHandler :: "request \<Rightarrow> string option \<Rightarrow> event list" where
  \<open>resizeHandler r resize_res =
     (if req_method r \<noteq> ''POST'' then [HttpError ''method not allowed'' 405]
      else (let containerID = Get (req_query r) ''id''
            in if containerID = [] then [HttpError ''missing "id" query parameter'' 400]
               else (case ParseUint (Get (req_query r) ''w'') of
                  Inl _ \<Rightarrow> [HttpError ''invalid "w" (cols) parameter'' 400]
                | Inr cols \<Rightarrow>
                    if cols = 0 then [HttpError ''invalid "w" (cols) parameter'' 400]
                    else (case ParseUint (Get (req_query r) ''h'') of
                       Inl _ \<Rightarrow> [HttpError ''invalid "h" (rows) parameter'' 400]
                     | Inr rows \<Rightarrow>
                         if rows = 0 then [HttpError ''invalid "h" (rows) parameter'' 400]
                         else (case resize_res of
                            Some e \<Rightarrow>
                              [ContainerResize containerID rows cols,
                               HttpError (''resize failed: '' @ e) 500]
                          | None \<Rightarrow>
                              [ContainerResize containerID rows cols,
                               WriteHeader 200, ResponseWrite ''ok''])))))\<close>

text \<open>
  What a client of the endpoint sees, and what the runtime is asked: the status codes
  written (\<^verbatim>\<open>http.Error\<close> writes its code, and its message followed by a newline), the
  body, and the resize calls.
\<close>

fun statuses_of :: "event list \<Rightarrow> nat list" where
  "statuses_of [] = []"
| "statuses_of (HttpError msg code # cs) = code # statuses_of cs"
| "statuses_of (WriteHeader code # cs) = code # statuses_of cs"
| "statuses_of (_ # cs) = statuses_of cs"

fun body_of :: "event list \<Rightarrow> bytes" where
  "body_of [] = []"
| "body_of (HttpError msg code # cs) = msg @ [CHR 0x0A] @ body_of cs"
| "body_of (ResponseWrite b # cs) = b @ body_of cs"
| "body_of (_ # cs) = body_of cs"

fun docker_resizes_of :: "event list \<Rightarrow> (string \<times> nat \<times> nat) list" where
  "docker_resizes_of [] = []"
| "docker_resizes_of (ContainerResize c h w # cs) = (c, h, w) # docker_resizes_of cs"
| "docker_resizes_of (_ # cs) = docker_resizes_of cs"

text \<open>A dimension the endpoint accepts: it parses as an unsigned integer and is not zero.\<close>

definition valid_dim :: "string \<Rightarrow> bool" where
  "valid_dim s = (case ParseUint s of Inl _ \<Rightarrow> False | Inr n \<Rightarrow> n \<noteq> 0)"

definition dim_value :: "string \<Rightarrow> nat" where
  "dim_value s = (case ParseUint s of Inl _ \<Rightarrow> 0 | Inr n \<Rightarrow> n)"

subsection \<open>Notions for the proofs about a session\<close>

text \<open>The calls a copy loop makes on its own: reads, writes, resize calls and log lines.\<close>

fun loop_call :: "event \<Rightarrow> bool" where
  "loop_call (ReaderRead n d e) = True"
| "loop_call (SetWriteDeadline n) = True"
| "loop_call (WriteMessage mt d) = True"
| "loop_call (ReadMessage mt p e) = True"
| "loop_call (ConnWrite p) = True"
| "loop_call (ContainerExecResize x h w) = True"
| "loop_call (Log l) = True"
| "loop_call _ = False"

text \<open>
  The shape of the calls of a goroutine: calls of its loop, followed by \<^verbatim>\<open>cancel()\<close> and
  \<^verbatim>\<open>wg.Done()\<close> when the loop returns.
\<close>

definition goroutine_ok :: "event list \<Rightarrow> bool" where
  "goroutine_ok p = (\<exists>evs. list_all loop_call evs \<and> (p = evs \<or> p = evs @ [Cancel, WgDone]))"

text \<open>
  What a goroutine with the calls \<open>p\<close> still holds of the wait group's counter: one unit
  until it has called \<^verbatim>\<open>wg.Done()\<close>, that is, as long as it is not started or \<^verbatim>\<open>wg.Done()\<close>
  is not behind it.
\<close>

definition owes :: "event list \<Rightarrow> event list option \<Rightarrow> int" where
  "owes p t = (case t of None \<Rightarrow> 1
               | Some r \<Rightarrow> if WgDone \<in> set p \<and> WgDone \<notin> set r then 0 else 1)"

text \<open>
  The calls of the handler when the upgrade, the creation of the exec and the attachment
  succeed, and the invariant of such a session: where the handler stands determines the
  counter, which goroutines run, and which of the two handles are closed.
\<close>

definition session_calls :: "string \<Rightarrow> string \<Rightarrow> event list" where
  "session_calls cid x =
     [Upgrade, Log (CreatingExec cid), ContainerExecCreate cid, ContainerExecAttach x,
      Log (Attached x cid), WgAdd 2, GoOutbound, GoInbound, WgWait,
      Log (SessionEnded cid x), HijackClose, Cancel, WsClose]"

definition session_inv :: "string \<Rightarrow> string \<Rightarrow> event list \<Rightarrow> event list \<Rightarrow> config \<Rightarrow> bool" where
  "session_inv cid x po pi c =
     (suffix (mainT c) (session_calls cid x)
      \<and> (\<forall>r. outT c = Some r \<longrightarrow> suffix r po)
      \<and> (\<forall>r. inT c = Some r \<longrightarrow> suffix r pi)
      \<and> (GoOutbound \<in> set (mainT c) \<longrightarrow> outT c = None)
      \<and> (GoInbound \<in> set (mainT c) \<longrightarrow> inT c = None)
      \<and> (WgAdd 2 \<in> set (mainT c) \<longrightarrow> wg c = 0)
      \<and> (WgAdd 2 \<notin> set (mainT c) \<and> WgWait \<in> set (mainT c) \<longrightarrow>
           wg c = owes po (outT c) + owes pi (inT c))
      \<and> int (count_list (trace c) WgDone) = (1 - owes po (outT c)) + (1 - owes pi (inT c))
      \<and> (WgWait \<in> set (mainT c) \<longrightarrow> HijackClose \<notin> set (trace c) \<and> WsClose \<notin> set (trace c))
      \<and> (WgWait \<notin> set (mainT c) \<longrightarrow>
           outT c = Some [] \<and> inT c = Some [] \<and> WgDone \<in> set po \<and> WgDone \<in> set pi \<and>
           (\<exists>t. trace c @ mainT c =
                  t @ [WgWait, Log (SessionEnded cid x), HijackClose, Cancel, WsClose] \<and>
                HijackClose \<notin> set t \<and> WsClose \<notin> set t \<and> count_list t WgDone = 2)))"

subsection \<open>Inputs of the worked examples\<close>

text \<open>
  A decoder for the examples: on the four frames below it returns what \<^verbatim>\<open>json.Unmarshal\<close>
  leaves in a fresh \<^verbatim>\<open>resizeMsg\<close> (a missing field keeps its zero value); every other
  payload stands for one that \<^verbatim>\<open>json.Unmarshal\<close> rejects.
\<close>

definition sample_unmarshal :: "bytes \<Rightarrow> resizeMsg option" where
  \<open>sample_unmarshal p =
     (if p = ''{"type":"resize","cols":120,"rows":40}''
      then Some \<lparr>Type = ''resize'', Cols = 120, Rows = 40\<rparr>
      else if p = ''{"type":"resize","cols":0,"rows":0}''
      then Some \<lparr>Type = ''resize'', Cols = 0, Rows = 0\<rparr>
      else if p = ''{"type":"resize"}''
      then Some \<lparr>Type = ''resize'', Cols = 0, Rows = 0\<rparr>
      else if p = ''{"type":"ping"}''
      then Some \<lparr>Type = ''ping'', Cols = 0, Rows = 0\<rparr>
      else None)\<close>

text \<open>A text or binary message read without error, with the answers of the calls it may cause.\<close>

definition text_frame :: "bytes \<Rightarrow> ws_in" where
  "text_frame p =
     \<lparr>in_mt = TextMessage, in_payload = p, in_err = None, resize_err = None, conn_err = None\<rparr>"

definition binary_frame :: "bytes \<Rightarrow> ws_in" where
  "binary_frame p =
     \<lparr>in_mt = BinaryMessage, in_payload = p, in_err = None, resize_err = None, conn_err = None\<rparr>"

text \<open>A request with the given method and one value for each listed query parameter.\<close>

definition sample_request :: "string \<Rightarrow> (string \<times> string) list \<Rightarrow> request" where
  "sample_request meth params =
     \<lparr>req_method = meth,
      req_query = (\<lambda>k. case map_of params k of None \<Rightarrow> [] | Some v \<Rightarrow> [v])\<rparr>"

text \<open>
  A session whose exec stream returns two bytes together with \<^verbatim>\<open>io.EOF\<close> and whose client
  closes the connection normally, and two schedules for it.
\<close>

definition sample_env :: attach_env where
  "sample_env =
     \<lparr>upgrade_err = None, exec_create = Inr ''exec1'', exec_attach_err = None,
      out_script = [\<lparr>rd_data = ''hi'', rd_err = Some EOF, wr_err = None\<rparr>],
      in_script = [\<lparr>in_mt = - 1, in_payload = [], in_err = Some (CloseError 1000),
                    resize_err = None, conn_err = None\<rparr>]\<rparr>"

definition outbound_first :: "goroutine list" where
  "outbound_first =
     [Handler, Handler, Handler, Handler, Handler, Handler, Handler, Handler,
      Outbound, Outbound, Outbound, Outbound, Outbound,
      Inbound, Inbound, Inbound,
      Handler, Handler, Handler, Handler, Handler]"

definition inbound_first :: "goroutine list" where
  "inbound_first =
     [Handler, Handler, Handler, Handler, Handler, Handler, Handler, Handler,
      Inbound, Outbound, Inbound, Inbound, Outbound, Outbound, Outbound, Outbound,
      Handler, Handler, Handler, Handler, Handler]"

text \<open>
  The same session with a client that sends input, then the same resize frame twice, then
  closes; a schedule for it, and one for the session without the resize frames.
\<close>

definition resize_twice_env :: attach_env where
  \<open>resize_twice_env =
     sample_env\<lparr>in_script :=
       [binary_frame ''ls'',
        text_frame ''{"type":"resize","cols":120,"rows":40}'',
        text_frame ''{"type":"resize","cols":120,"rows":40}'',
        \<lparr>in_mt = - 1, in_payload = [], in_err = Some (CloseError 1000),
           resize_err = None, conn_err = None\<rparr>]\<rparr>\<close>

definition resize_twice_schedule :: "goroutine list" where
  "resize_twice_schedule =
     [Handler, Handler, Handler, Handler, Handler, Handler, Handler, Handler,
      Inbound, Inbound, Inbound, Inbound, Outbound, Outbound, Outbound,
      Inbound, Inbound, Inbound, Inbound, Inbound, Outbound, Outbound,
      Handler, Handler, Handler, Handler, Handler]"

definition resize_free_schedule :: "goroutine list" where
  "resize_free_schedule =
     [Handler, Handler, Handler, Handler, Handler, Handler, Handler, Handler,
      Inbound, Inbound, Outbound, Outbound, Outbound,
      Inbound, Inbound, Inbound, Outbound, Outbound,
      Handler, Handler, Handler, Handler, Handler]"

section \<open>Properties\<close>

subsection \<open>Projections of a trace\<close>

lemma reads_of_append: "reads_of (xs @ ys) = reads_of xs @ reads_of ys"
  by (induction xs rule: reads_of.induct) simp_all

lemma frames_of_append: "frames_of (xs @ ys) = frames_of xs @ frames_of ys"
  by (induction xs rule: frames_of.induct) simp_all

lemma logs_of_append: "logs_of (xs @ ys) = logs_of xs @ logs_of ys"
  by (induction xs rule: logs_of.induct) simp_all

lemma conn_writes_of_append: "conn_writes_of (xs @ ys) = conn_writes_of xs @ conn_writes_of ys"
  by (induction xs rule: conn_writes_of.induct) simp_all

lemma resizes_of_append: "resizes_of (xs @ ys) = resizes_of xs @ resizes_of ys"
  by (induction xs rule: resizes_of.induct) simp_all

lemma reads_of_outboundIter: "reads_of (fst (outboundIter io)) = [rd_data io]"
  by (simp add: outboundIter_def Let_def split: option.splits read_error.splits)

lemma frames_of_outboundIter:
  "frames_of (fst (outboundIter io)) =
     (if rd_data io = [] then [] else [(BinaryMessage, rd_data io)])"
  by (simp add: outboundIter_def Let_def split: option.splits read_error.splits)

lemma logs_of_outboundIter:
  "logs_of (fst (outboundIter io)) =
     (if rd_data io \<noteq> [] \<and> wr_err io \<noteq> None then [WriteWsFailed (the (wr_err io))]
      else (case rd_err io of Some (ReadErr e) \<Rightarrow> [ReadDockerFailed e] | _ \<Rightarrow> []))"
  by (simp add: outboundIter_def Let_def split: option.splits read_error.splits)

lemma outboundIter_continues:
  "snd (outboundIter io) = (rd_err io = None \<and> (rd_data io = [] \<or> wr_err io = None))"
  by (simp add: outboundIter_def Let_def split: option.splits read_error.splits)

lemma outboundLoop_Cons:
  "outboundLoop (io # rest) =
     (if snd (outboundIter io)
      then (fst (outboundIter io) @ fst (outboundLoop rest), snd (outboundLoop rest))
      else (fst (outboundIter io), Returned))"
  by (simp split: prod.splits bool.splits)

lemma outboundLoop_append:
  "outboundLoop (pre @ rest) =
     (if snd (outboundLoop pre) = Blocked
      then (fst (outboundLoop pre) @ fst (outboundLoop rest), snd (outboundLoop rest))
      else outboundLoop pre)"
proof (induction pre)
  case Nil
  show ?case by simp
next
  case (Cons io pre)
  show ?case
    unfolding append_Cons outboundLoop_Cons [of io "pre @ rest"] outboundLoop_Cons [of io pre] Cons.IH
    by (cases "snd (outboundLoop pre)") simp_all
qed

lemma frames_of_outboundLoop:
  "frames_of (fst (outboundLoop script)) =
     map (Pair BinaryMessage) (filter (\<lambda>d. d \<noteq> []) (reads_of (fst (outboundLoop script))))"
proof (induction script)
  case Nil
  show ?case by simp
next
  case (Cons io rest)
  then show ?case
    unfolding outboundLoop_Cons
    by (simp add: frames_of_append reads_of_append reads_of_outboundIter frames_of_outboundIter)
qed

lemma reads_of_outboundLoop:
  "reads_of (fst (outboundLoop script)) =
     map rd_data (take (length (reads_of (fst (outboundLoop script)))) script)"
proof (induction script)
  case Nil
  show ?case by simp
next
  case (Cons io rest)
  then show ?case
    unfolding outboundLoop_Cons
    by (simp add: reads_of_append reads_of_outboundIter)
qed

lemma concat_filter_nonempty: "concat (filter (\<lambda>d. d \<noteq> []) xs) = concat xs"
  by (induction xs) simp_all

lemma outboundLoop_final_read:
  assumes "snd (outboundLoop pre) = Blocked" and "rd_data io \<noteq> []" and "rd_err io = Some e"
  shows "outboundLoop (pre @ [io]) =
           (fst (outboundLoop pre) @
            [ReaderRead readBufSize (rd_data io) (Some e),
             SetWriteDeadline writeDeadline,
             WriteMessage BinaryMessage (rd_data io)] @
            map Log (logs_of (fst (outboundIter io))), Returned)"
  using assms
  by (simp add: outboundLoop_append outboundLoop_Cons outboundIter_continues)
     (simp add: outboundIter_def Let_def split: read_error.splits)

text \<open>
  Claim C2. Whatever the exec stream returns, the frames handed to the WebSocket are
  exactly the non-empty reads, each as one binary frame, in the order they were read:
  the concatenation of the frames is the concatenation of the bytes read, and the reads
  made are a prefix of the script (all of it while the loop is still running). A final
  read that returns bytes together with an error has its bytes written, in one binary
  frame, before the loop returns.
\<close>

theorem outbound_forwards_every_read:
  "frames_of (fst (outboundLoop script)) =
     map (Pair BinaryMessage) (filter (\<lambda>d. d \<noteq> []) (reads_of (fst (outboundLoop script))))
   \<and> concat (map snd (frames_of (fst (outboundLoop script)))) =
       concat (reads_of (fst (outboundLoop script)))
   \<and> reads_of (fst (outboundLoop script)) =
       map rd_data (take (length (reads_of (fst (outboundLoop script)))) script)
   \<and> (snd (outboundLoop script) = Blocked \<longrightarrow>
        reads_of (fst (outboundLoop script)) = map rd_data script)
   \<and> (\<forall>io e. snd (outboundLoop script) = Blocked \<and> rd_data io \<noteq> [] \<and> rd_err io = Some e \<longrightarrow>
        outboundLoop (script @ [io]) =
          (fst (outboundLoop script) @
           [ReaderRead readBufSize (rd_data io) (Some e),
            SetWriteDeadline writeDeadline,
            WriteMessage BinaryMessage (rd_data io)] @
           map Log (logs_of (fst (outboundIter io))), Returned))"
proof -
  have blocked: "snd (outboundLoop s) = Blocked \<Longrightarrow> reads_of (fst (outboundLoop s)) = map rd_data s" for s
  proof (induction s)
    case Nil
    show ?case by simp
  next
    case (Cons io rest)
    then show ?case
      unfolding outboundLoop_Cons
      by (simp add: reads_of_append reads_of_outboundIter split: if_splits)
  qed
  have "concat (map snd (frames_of (fst (outboundLoop script)))) =
          concat (filter (\<lambda>d. d \<noteq> []) (reads_of (fst (outboundLoop script))))"
    by (simp add: frames_of_outboundLoop comp_def)
  then have cc: "concat (map snd (frames_of (fst (outboundLoop script)))) =
          concat (reads_of (fst (outboundLoop script)))"
    by (simp only: concat_filter_nonempty)
  show ?thesis
    using frames_of_outboundLoop [of script] cc reads_of_outboundLoop [of script]
      blocked [of script] outboundLoop_final_read [of script]
    by blast
qed

theorem outbound_forwards_every_read_witness:
  "snd (outboundLoop [\<lparr>rd_data = ''hello'' @ [CHR 0x0A], rd_err = None, wr_err = None\<rparr>]) = Blocked
   \<and> rd_data \<lparr>rd_data = ''bye'', rd_err = Some EOF, wr_err = None\<rparr> \<noteq> []
   \<and> rd_err \<lparr>rd_data = ''bye'', rd_err = Some EOF, wr_err = None\<rparr> = Some EOF
   \<and> frames_of (fst (outboundLoop [\<lparr>rd_data = ''hello'' @ [CHR 0x0A], rd_err = None, wr_err = None\<rparr>]))
       = [(BinaryMessage, ''hello'' @ [CHR 0x0A])]
   \<and> outboundLoop ([\<lparr>rd_data = ''hello'' @ [CHR 0x0A], rd_err = None, wr_err = None\<rparr>] @
                    [\<lparr>rd_data = ''bye'', rd_err = Some EOF, wr_err = None\<rparr>])
       = ([ReaderRead readBufSize (''hello'' @ [CHR 0x0A]) None,
           SetWriteDeadline writeDeadline,
           WriteMessage BinaryMessage (''hello'' @ [CHR 0x0A]),
           ReaderRead readBufSize ''bye'' (Some EOF),
           SetWriteDeadline writeDeadline,
           WriteMessage BinaryMessage ''bye''], Returned)"
proof -
  let ?s = "[\<lparr>rd_data = ''hello'' @ [CHR 0x0A], rd_err = None, wr_err = None\<rparr>]"
  let ?io = "\<lparr>rd_data = ''bye'', rd_err = Some EOF, wr_err = None\<rparr>"
  have b: "snd (outboundLoop ?s) = Blocked"
    by (simp add: outboundIter_def)
  have d: "rd_data ?io \<noteq> []" and e: "rd_err ?io = Some EOF"
    by simp_all
  have r: "reads_of (fst (outboundLoop ?s)) = [''hello'' @ [CHR 0x0A]]"
    by (simp add: outboundIter_def)
  have t: "fst (outboundLoop ?s) =
             [ReaderRead readBufSize (''hello'' @ [CHR 0x0A]) None,
              SetWriteDeadline writeDeadline,
              WriteMessage BinaryMessage (''hello'' @ [CHR 0x0A])]"
    by (simp add: outboundIter_def)
  have l: "logs_of (fst (outboundIter ?io)) = []"
    by (simp add: outboundIter_def)
  from outbound_forwards_every_read [of ?s] b d e
  have "frames_of (fst (outboundLoop ?s)) =
          map (Pair BinaryMessage) (filter (\<lambda>d. d \<noteq> []) (reads_of (fst (outboundLoop ?s))))"
    and "outboundLoop (?s @ [?io]) =
          (fst (outboundLoop ?s) @
           [ReaderRead readBufSize (rd_data ?io) (Some EOF),
            SetWriteDeadline writeDeadline,
            WriteMessage BinaryMessage (rd_data ?io)] @
           map Log (logs_of (fst (outboundIter ?io))), Returned)"
    by blast+
  then show ?thesis
    unfolding r t l using b by simp
qed

subsection \<open>How the outbound loop ends\<close>

lemma exit_io_Returned: "(snd (outboundLoop script) = Returned) = (exit_io script \<noteq> None)"
  by (induction script) (simp_all add: outboundLoop_Cons del: outboundLoop.simps(2))

lemma exit_io_stops: "exit_io script = Some io \<Longrightarrow> \<not> snd (outboundIter io)"
  by (induction script) (simp_all split: if_splits)

lemma logs_of_outboundLoop:
  "logs_of (fst (outboundLoop script)) =
     (case exit_io script of None \<Rightarrow> [] | Some io \<Rightarrow> logs_of (fst (outboundIter io)))"
proof (induction script)
  case Nil
  show ?case by simp
next
  case (Cons io rest)
  have "snd (outboundIter io) \<Longrightarrow> logs_of (fst (outboundIter io)) = []"
    by (simp add: logs_of_outboundIter outboundIter_continues split: option.splits)
  with Cons show ?case
    by (simp add: outboundLoop_Cons logs_of_append del: outboundLoop.simps(2))
qed

lemma outboundLoop_exit_suffix:
  "exit_io script = Some io \<Longrightarrow> \<exists>pre. fst (outboundLoop script) = pre @ fst (outboundIter io)"
proof (induction script)
  case Nil
  then show ?case by simp
next
  case (Cons i rest)
  show ?case
  proof (cases "snd (outboundIter i)")
    case True
    with Cons obtain pre where "fst (outboundLoop rest) = pre @ fst (outboundIter io)"
      by auto
    with True show ?thesis
      by (simp add: outboundLoop_Cons del: outboundLoop.simps(2))
  next
    case False
    with Cons.prems have "i = io" by simp
    with False show ?thesis
      by (simp add: outboundLoop_Cons del: outboundLoop.simps(2))
  qed
qed

lemma exit_io_find:
  "exit_io script =
     find (\<lambda>io. (rd_data io \<noteq> [] \<and> wr_err io \<noteq> None) \<or> rd_err io \<noteq> None) script"
  by (induction script) (auto simp add: outboundIter_continues)

lemma outboundLoop_Blocked: "(snd (outboundLoop script) = Blocked) = (exit_io script = None)"
  using exit_io_Returned [of script] by (cases "snd (outboundLoop script)") simp_all

lemma outboundIter_exit_calls:
  assumes "(rd_data io \<noteq> [] \<and> wr_err io \<noteq> None) \<or> rd_err io \<noteq> None"
  shows "outboundIter io =
           ([ReaderRead readBufSize (rd_data io) (rd_err io)] @
            (if rd_data io = [] then []
             else [SetWriteDeadline writeDeadline, WriteMessage BinaryMessage (rd_data io)]) @
            map Log (if rd_data io \<noteq> [] \<and> wr_err io \<noteq> None
                     then [WriteWsFailed (the (wr_err io))]
                     else (case rd_err io of Some (ReadErr e) \<Rightarrow> [ReadDockerFailed e] | _ \<Rightarrow> [])),
            False)"
  using assms by (auto simp add: outboundIter_def Let_def split: option.splits read_error.splits)

lemma outboundIter_again_calls:
  assumes "rd_err io = None" and "rd_data io = [] \<or> wr_err io = None"
  shows "outboundIter io =
           ([ReaderRead readBufSize (rd_data io) None] @
            (if rd_data io = [] then []
             else [SetWriteDeadline writeDeadline, WriteMessage BinaryMessage (rd_data io)]),
            True)"
  using assms by (auto simp add: outboundIter_def Let_def)

lemma outboundLoop_returns_at:
  assumes "find (\<lambda>io. (rd_data io \<noteq> [] \<and> wr_err io \<noteq> None) \<or> rd_err io \<noteq> None) pre = None"
    and "(rd_data io \<noteq> [] \<and> wr_err io \<noteq> None) \<or> rd_err io \<noteq> None"
  shows "outboundLoop (pre @ io # rest) =
           (fst (outboundLoop pre) @
            [ReaderRead readBufSize (rd_data io) (rd_err io)] @
            (if rd_data io = [] then []
             else [SetWriteDeadline writeDeadline, WriteMessage BinaryMessage (rd_data io)]) @
            map Log (if rd_data io \<noteq> [] \<and> wr_err io \<noteq> None
                     then [WriteWsFailed (the (wr_err io))]
                     else (case rd_err io of Some (ReadErr e) \<Rightarrow> [ReadDockerFailed e] | _ \<Rightarrow> [])),
            Returned)
       \<and> snd (outboundLoop pre) = Blocked
       \<and> logs_of (fst (outboundLoop pre)) = []"
proof -
  from assms(1) have x: "exit_io pre = None"
    by (simp only: exit_io_find)
  then have b: "snd (outboundLoop pre) = Blocked"
    by (simp only: outboundLoop_Blocked)
  from x have l: "logs_of (fst (outboundLoop pre)) = []"
    by (simp add: logs_of_outboundLoop)
  have "outboundLoop (pre @ io # rest) = (fst (outboundLoop pre) @ fst (outboundIter io), Returned)"
    using b outboundIter_exit_calls [OF assms(2)]
    by (simp add: outboundLoop_append outboundLoop_Cons del: outboundLoop.simps(2))
  with b l outboundIter_exit_calls [OF assms(2)] show ?thesis
    by simp
qed

text \<open>
  Claim C5, as the code has it. An iteration goes round again exactly when the read
  returned no error and the write of its bytes, if any, did not fail; so the loop returns
  at the first iteration in which the write fails or the read returns an error, whatever
  the stream would return afterwards, and it returns if and only if there is such an
  iteration. In that iteration a failed write of the bytes just read (a missed 10-second
  deadline is such a failure) comes first: the write is the last call on the WebSocket,
  only the write failure is logged, and the error of the read is not looked at. When no
  write failed, the loop returns on the error of the read: silently on \<^verbatim>\<open>io.EOF\<close>, after
  logging on any other error. Nothing is logged before that iteration. So the loop
  returns without logging exactly when the last read returned \<^verbatim>\<open>io.EOF\<close> and the write of
  its bytes, if any, did not fail. No frame is written twice: the frames are the
  non-empty reads.
\<close>

theorem outbound_exit:
  "(\<forall>io. snd (outboundIter io) =
          (rd_err io = None \<and> (rd_data io = [] \<or> wr_err io = None)))
   \<and> exit_io script =
       find (\<lambda>io. (rd_data io \<noteq> [] \<and> wr_err io \<noteq> None) \<or> rd_err io \<noteq> None) script
   \<and> (snd (outboundLoop script) = Returned) =
       (find (\<lambda>io. (rd_data io \<noteq> [] \<and> wr_err io \<noteq> None) \<or> rd_err io \<noteq> None) script \<noteq> None)
   \<and> (\<forall>pre io rest.
        find (\<lambda>io. (rd_data io \<noteq> [] \<and> wr_err io \<noteq> None) \<or> rd_err io \<noteq> None) pre = None \<and>
        ((rd_data io \<noteq> [] \<and> wr_err io \<noteq> None) \<or> rd_err io \<noteq> None) \<longrightarrow>
        outboundLoop (pre @ io # rest) =
          (fst (outboundLoop pre) @
           [ReaderRead readBufSize (rd_data io) (rd_err io)] @
           (if rd_data io = [] then []
            else [SetWriteDeadline writeDeadline, WriteMessage BinaryMessage (rd_data io)]) @
           map Log (if rd_data io \<noteq> [] \<and> wr_err io \<noteq> None
                    then [WriteWsFailed (the (wr_err io))]
                    else (case rd_err io of Some (ReadErr e) \<Rightarrow> [ReadDockerFailed e] | _ \<Rightarrow> [])),
           Returned)
        \<and> snd (outboundLoop pre) = Blocked
        \<and> logs_of (fst (outboundLoop pre)) = [])
   \<and> (\<forall>io. rd_err io = None \<and> (rd_data io = [] \<or> wr_err io = None) \<longrightarrow>
        outboundIter io =
          ([ReaderRead readBufSize (rd_data io) None] @
           (if rd_data io = [] then []
            else [SetWriteDeadline writeDeadline, WriteMessage BinaryMessage (rd_data io)]),
           True))
   \<and> (snd (outboundLoop script) = Returned) = (exit_io script \<noteq> None)
   \<and> (exit_io script = None \<longrightarrow> logs_of (fst (outboundLoop script)) = [])
   \<and> (\<forall>io. exit_io script = Some io \<longrightarrow>
        ((rd_data io \<noteq> [] \<and> wr_err io \<noteq> None) \<or> rd_err io \<noteq> None)
        \<and> logs_of (fst (outboundLoop script)) =
            (if rd_data io \<noteq> [] \<and> wr_err io \<noteq> None then [WriteWsFailed (the (wr_err io))]
             else (case rd_err io of Some (ReadErr e) \<Rightarrow> [ReadDockerFailed e] | _ \<Rightarrow> []))
        \<and> ((logs_of (fst (outboundLoop script)) = []) =
             (rd_err io = Some EOF \<and> (rd_data io = [] \<or> wr_err io = None)))
        \<and> (rd_data io \<noteq> [] \<and> wr_err io \<noteq> None \<longrightarrow>
             (\<exists>pre. fst (outboundLoop script) =
                pre @ [ReaderRead readBufSize (rd_data io) (rd_err io),
                       SetWriteDeadline writeDeadline,
                       WriteMessage BinaryMessage (rd_data io),
                       Log (WriteWsFailed (the (wr_err io)))])))
   \<and> map snd (frames_of (fst (outboundLoop script))) =
       filter (\<lambda>d. d \<noteq> []) (reads_of (fst (outboundLoop script)))"
proof -
  have a: "(snd (outboundLoop script) = Returned) = (exit_io script \<noteq> None)"
    by (rule exit_io_Returned)
  have b: "exit_io script = None \<longrightarrow> logs_of (fst (outboundLoop script)) = []"
    by (simp add: logs_of_outboundLoop)
  have c: "map snd (frames_of (fst (outboundLoop script))) =
       filter (\<lambda>d. d \<noteq> []) (reads_of (fst (outboundLoop script)))"
    by (simp add: frames_of_outboundLoop comp_def)
  have d: "(rd_data io \<noteq> [] \<and> wr_err io \<noteq> None) \<or> rd_err io \<noteq> None"
    if "exit_io script = Some io" for io
    using exit_io_stops [OF that] by (auto simp add: outboundIter_continues)
  have e: "logs_of (fst (outboundLoop script)) =
            (if rd_data io \<noteq> [] \<and> wr_err io \<noteq> None then [WriteWsFailed (the (wr_err io))]
             else (case rd_err io of Some (ReadErr e) \<Rightarrow> [ReadDockerFailed e] | _ \<Rightarrow> []))"
    if "exit_io script = Some io" for io
    using that by (simp add: logs_of_outboundLoop logs_of_outboundIter)
  have f: "(logs_of (fst (outboundLoop script)) = []) =
             (rd_err io = Some EOF \<and> (rd_data io = [] \<or> wr_err io = None))"
    if "exit_io script = Some io" for io
    using d [OF that] unfolding e [OF that]
    by (auto split: option.splits read_error.splits)
  have g: "\<exists>pre. fst (outboundLoop script) =
                pre @ [ReaderRead readBufSize (rd_data io) (rd_err io),
                       SetWriteDeadline writeDeadline,
                       WriteMessage BinaryMessage (rd_data io),
                       Log (WriteWsFailed (the (wr_err io)))]"
    if "exit_io script = Some io" and "rd_data io \<noteq> [] \<and> wr_err io \<noteq> None" for io
  proof -
    from that(2) have "fst (outboundIter io) =
        [ReaderRead readBufSize (rd_data io) (rd_err io),
         SetWriteDeadline writeDeadline,
         WriteMessage BinaryMessage (rd_data io),
         Log (WriteWsFailed (the (wr_err io)))]"
      by (simp add: outboundIter_def Let_def)
    with outboundLoop_exit_suffix [OF that(1)] show ?thesis by simp
  qed
  have o: "(snd (outboundLoop script) = Returned) = (exit_io script \<noteq> None)
   \<and> (exit_io script = None \<longrightarrow> logs_of (fst (outboundLoop script)) = [])
   \<and> (\<forall>io. exit_io script = Some io \<longrightarrow>
        ((rd_data io \<noteq> [] \<and> wr_err io \<noteq> None) \<or> rd_err io \<noteq> None)
        \<and> logs_of (fst (outboundLoop script)) =
            (if rd_data io \<noteq> [] \<and> wr_err io \<noteq> None then [WriteWsFailed (the (wr_err io))]
             else (case rd_err io of Some (ReadErr e) \<Rightarrow> [ReadDockerFailed e] | _ \<Rightarrow> []))
        \<and> ((logs_of (fst (outboundLoop script)) = []) =
             (rd_err io = Some EOF \<and> (rd_data io = [] \<or> wr_err io = None)))
        \<and> (rd_data io \<noteq> [] \<and> wr_err io \<noteq> None \<longrightarrow>
             (\<exists>pre. fst (outboundLoop script) =
                pre @ [ReaderRead readBufSize (rd_data io) (rd_err io),
                       SetWriteDeadline writeDeadline,
                       WriteMessage BinaryMessage (rd_data io),
                       Log (WriteWsFailed (the (wr_err io)))])))
   \<and> map snd (frames_of (fst (outboundLoop script))) =
       filter (\<lambda>d. d \<noteq> []) (reads_of (fst (outboundLoop script)))"
    by (intro conjI allI impI a b c d e f g) simp_all
  have n1: "(\<forall>io. snd (outboundIter io) =
          (rd_err io = None \<and> (rd_data io = [] \<or> wr_err io = None)))"
    by (simp add: outboundIter_continues)
  have n2: "exit_io script =
       find (\<lambda>io. (rd_data io \<noteq> [] \<and> wr_err io \<noteq> None) \<or> rd_err io \<noteq> None) script"
    by (rule exit_io_find)
  have n3: "(snd (outboundLoop script) = Returned) =
       (find (\<lambda>io. (rd_data io \<noteq> [] \<and> wr_err io \<noteq> None) \<or> rd_err io \<noteq> None) script \<noteq> None)"
    unfolding exit_io_Returned by (simp only: exit_io_find)
  have n4: "(\<forall>pre io rest.
        find (\<lambda>io. (rd_data io \<noteq> [] \<and> wr_err io \<noteq> None) \<or> rd_err io \<noteq> None) pre = None \<and>
        ((rd_data io \<noteq> [] \<and> wr_err io \<noteq> None) \<or> rd_err io \<noteq> None) \<longrightarrow>
        outboundLoop (pre @ io # rest) =
          (fst (outboundLoop pre) @
           [ReaderRead readBufSize (rd_data io) (rd_err io)] @
           (if rd_data io = [] then []
            else [SetWriteDeadline writeDeadline, WriteMessage BinaryMessage (rd_data io)]) @
           map Log (if rd_data io \<noteq> [] \<and> wr_err io \<noteq> None
                    then [WriteWsFailed (the (wr_err io))]
                    else (case rd_err io of Some (ReadErr e) \<Rightarrow> [ReadDockerFailed e] | _ \<Rightarrow> [])),
           Returned)
        \<and> snd (outboundLoop pre) = Blocked
        \<and> logs_of (fst (outboundLoop pre)) = [])"
    using outboundLoop_returns_at by blast
  have n5: "(\<forall>io. rd_err io = None \<and> (rd_data io = [] \<or> wr_err io = None) \<longrightarrow>
        outboundIter io =
          ([ReaderRead readBufSize (rd_data io) None] @
           (if rd_data io = [] then []
            else [SetWriteDeadline writeDeadline, WriteMessage BinaryMessage (rd_data io)]),
           True))"
    using outboundIter_again_calls by blast
  from n5 o have r5: "(\<forall>io. rd_err io = None \<and> (rd_data io = [] \<or> wr_err io = None) \<longrightarrow>
        outboundIter io =
          ([ReaderRead readBufSize (rd_data io) None] @
           (if rd_data io = [] then []
            else [SetWriteDeadline writeDeadline, WriteMessage BinaryMessage (rd_data io)]),
           True))
   \<and> ((snd (outboundLoop script) = Returned) = (exit_io script \<noteq> None)
   \<and> (exit_io script = None \<longrightarrow> logs_of (fst (outboundLoop script)) = [])
   \<and> (\<forall>io. exit_io script = Some io \<longrightarrow>
        ((rd_data io \<noteq> [] \<and> wr_err io \<noteq> None) \<or> rd_err io \<noteq> None)
        \<and> logs_of (fst (outboundLoop script)) =
            (if rd_data io \<noteq> [] \<and> wr_err io \<noteq> None then [WriteWsFailed (the (wr_err io))]
             else (case rd_err io of Some (ReadErr e) \<Rightarrow> [ReadDockerFailed e] | _ \<Rightarrow> []))
        \<and> ((logs_of (fst (outboundLoop script)) = []) =
             (rd_err io = Some EOF \<and> (rd_data io = [] \<or> wr_err io = None)))
        \<and> (rd_data io \<noteq> [] \<and> wr_err io \<noteq> None \<longrightarrow>
             (\<exists>pre. fst (outboundLoop script) =
                pre @ [ReaderRead readBufSize (rd_data io) (rd_err io),
                       SetWriteDeadline writeDeadline,
                       WriteMessage BinaryMessage (rd_data io),
                       Log (WriteWsFailed (the (wr_err io)))])))
   \<and> map snd (frames_of (fst (outboundLoop script))) =
       filter (\<lambda>d. d \<noteq> []) (reads_of (fst (outboundLoop script))))"
    by (rule conjI)
  from n4 r5 have r4: "(\<forall>pre io rest.
        find (\<lambda>io. (rd_data io \<noteq> [] \<and> wr_err io \<noteq> None) \<or> rd_err io \<noteq> None) pre = None \<and>
        ((rd_data io \<noteq> [] \<and> wr_err io \<noteq> None) \<or> rd_err io \<noteq> None) \<longrightarrow>
        outboundLoop (pre @ io # rest) =
          (fst (outboundLoop pre) @
           [ReaderRead readBufSize (rd_data io) (rd_err io)] @
           (if rd_data io = [] then []
            else [SetWriteDeadline writeDeadline, WriteMessage BinaryMessage (rd_data io)]) @
           map Log (if rd_data io \<noteq> [] \<and> wr_err io \<noteq> None
                    then [WriteWsFailed (the (wr_err io))]
                    else (case rd_err io of Some (ReadErr e) \<Rightarrow> [ReadDockerFailed e] | _ \<Rightarrow> [])),
           Returned)
        \<and> snd (outboundLoop pre) = Blocked
        \<and> logs_of (fst (outboundLoop pre)) = [])
   \<and> (\<forall>io. rd_err io = None \<and> (rd_data io = [] \<or> wr_err io = None) \<longrightarrow>
        outboundIter io =
          ([ReaderRead readBufSize (rd_data io) None] @
           (if rd_data io = [] then []
            else [SetWriteDeadline writeDeadline, WriteMessage BinaryMessage (rd_data io)]),
           True))
   \<and> ((snd (outboundLoop script) = Returned) = (exit_io script \<noteq> None)
   \<and> (exit_io script = None \<longrightarrow> logs_of (fst (outboundLoop script)) = [])
   \<and> (\<forall>io. exit_io script = Some io \<longrightarrow>
        ((rd_data io \<noteq> [] \<and> wr_err io \<noteq> None) \<or> rd_err io \<noteq> None)
        \<and> logs_of (fst (outboundLoop script)) =
            (if rd_data io \<noteq> [] \<and> wr_err io \<noteq> None then [WriteWsFailed (the (wr_err io))]
             else (case rd_err io of Some (ReadErr e) \<Rightarrow> [ReadDockerFailed e] | _ \<Rightarrow> []))
        \<and> ((logs_of (fst (outboundLoop script)) = []) =
             (rd_err io = Some EOF \<and> (rd_data io = [] \<or> wr_err io = None)))
        \<and> (rd_data io \<noteq> [] \<and> wr_err io \<noteq> None \<longrightarrow>
             (\<exists>pre. fst (outboundLoop script) =
                pre @ [ReaderRead readBufSize (rd_data io) (rd_err io),
                       SetWriteDeadline writeDeadline,
                       WriteMessage BinaryMessage (rd_data io),
                       Log (WriteWsFailed (the (wr_err io)))])))
   \<and> map snd (frames_of (fst (outboundLoop script))) =
       filter (\<lambda>d. d \<noteq> []) (reads_of (fst (outboundLoop script))))"
    by (rule conjI)
  from n3 r4 have r3: "(snd (outboundLoop script) = Returned) =
       (find (\<lambda>io. (rd_data io \<noteq> [] \<and> wr_err io \<noteq> None) \<or> rd_err io \<noteq> None) script \<noteq> None)
   \<and> (\<forall>pre io rest.
        find (\<lambda>io. (rd_data io \<noteq> [] \<and> wr_err io \<noteq> None) \<or> rd_err io \<noteq> None) pre = None \<and>
        ((rd_data io \<noteq> [] \<and> wr_err io \<noteq> None) \<or> rd_err io \<noteq> None) \<longrightarrow>
        outboundLoop (pre @ io # rest) =
          (fst (outboundLoop pre) @
           [ReaderRead readBufSize (rd_data io) (rd_err io)] @
           (if rd_data io = [] then []
            else [SetWriteDeadline writeDeadline, WriteMessage BinaryMessage (rd_data io)]) @
           map Log (if rd_data io \<noteq> [] \<and> wr_err io \<noteq> None
                    then [WriteWsFailed (the (wr_err io))]
                    else (case rd_err io of Some (ReadErr e) \<Rightarrow> [ReadDockerFailed e] | _ \<Rightarrow> [])),
           Returned)
        \<and> snd (outboundLoop pre) = Blocked
        \<and> logs_of (fst (outboundLoop pre)) = [])
   \<and> (\<forall>io. rd_err io = None \<and> (rd_data io = [] \<or> wr_err io = None) \<longrightarrow>
        outboundIter io =
          ([ReaderRead readBufSize (rd_data io) None] @
           (if rd_data io = [] then []
            else [SetWriteDeadline writeDeadline, WriteMessage BinaryMessage (rd_data io)]),
           True))
   \<and> ((snd (outboundLoop script) = Returned) = (exit_io script \<noteq> None)
   \<and> (exit_io script = None \<longrightarrow> logs_of (fst (outboundLoop script)) = [])
   \<and> (\<forall>io. exit_io script = Some io \<longrightarrow>
        ((rd_data io \<noteq> [] \<and> wr_err io \<noteq> None) \<or> rd_err io \<noteq> None)
        \<and> logs_of (fst (outboundLoop script)) =
            (if rd_data io \<noteq> [] \<and> wr_err io \<noteq> None then [WriteWsFailed (the (wr_err io))]
             else (case rd_err io of Some (ReadErr e) \<Rightarrow> [ReadDockerFailed e] | _ \<Rightarrow> []))
        \<and> ((logs_of (fst (outboundLoop script)) = []) =
             (rd_err io = Some EOF \<and> (rd_data io = [] \<or> wr_err io = None)))
        \<and> (rd_data io \<noteq> [] \<and> wr_err io \<noteq> None \<longrightarrow>
             (\<exists>pre. fst (outboundLoop script) =
                pre @ [ReaderRead readBufSize (rd_data io) (rd_err io),
                       SetWriteDeadline writeDeadline,
                       WriteMessage BinaryMessage (rd_data io),
                       Log (WriteWsFailed (the (wr_err io)))])))
   \<and> map snd (frames_of (fst (outboundLoop script))) =
       filter (\<lambda>d. d \<noteq> []) (reads_of (fst (outboundLoop script))))"
    by (rule conjI)
  from n2 r3 have r2: "exit_io script =
       find (\<lambda>io. (rd_data io \<noteq> [] \<and> wr_err io \<noteq> None) \<or> rd_err io \<noteq> None) script
   \<and> (snd (outboundLoop script) = Returned) =
       (find (\<lambda>io. (rd_data io \<noteq> [] \<and> wr_err io \<noteq> None) \<or> rd_err io \<noteq> None) script \<noteq> None)
   \<and> (\<forall>pre io rest.
        find (\<lambda>io. (rd_data io \<noteq> [] \<and> wr_err io \<noteq> None) \<or> rd_err io \<noteq> None) pre = None \<and>
        ((rd_data io \<noteq> [] \<and> wr_err io \<noteq> None) \<or> rd_err io \<noteq> None) \<longrightarrow>
        outboundLoop (pre @ io # rest) =
          (fst (outboundLoop pre) @
           [ReaderRead readBufSize (rd_data io) (rd_err io)] @
           (if rd_data io = [] then []
            else [SetWriteDeadline writeDeadline, WriteMessage BinaryMessage (rd_data io)]) @
           map Log (if rd_data io \<noteq> [] \<and> wr_err io \<noteq> None
                    then [WriteWsFailed (the (wr_err io))]
                    else (case rd_err io of Some (ReadErr e) \<Rightarrow> [ReadDockerFailed e] | _ \<Rightarrow> [])),
           Returned)
        \<and> snd (outboundLoop pre) = Blocked
        \<and> logs_of (fst (outboundLoop pre)) = [])
   \<and> (\<forall>io. rd_err io = None \<and> (rd_data io = [] \<or> wr_err io = None) \<longrightarrow>
        outboundIter io =
          ([ReaderRead readBufSize (rd_data io) None] @
           (if rd_data io = [] then []
            else [SetWriteDeadline writeDeadline, WriteMessage BinaryMessage (rd_data io)]),
           True))
   \<and> ((snd (outboundLoop script) = Returned) = (exit_io script \<noteq> None)
   \<and> (exit_io script = None \<longrightarrow> logs_of (fst (outboundLoop script)) = [])
   \<and> (\<forall>io. exit_io script = Some io \<longrightarrow>
        ((rd_data io \<noteq> [] \<and> wr_err io \<noteq> None) \<or> rd_err io \<noteq> None)
        \<and> logs_of (fst (outboundLoop script)) =
            (if rd_data io \<noteq> [] \<and> wr_err io \<noteq> None then [WriteWsFailed (the (wr_err io))]
             else (case rd_err io of Some (ReadErr e) \<Rightarrow> [ReadDockerFailed e] | _ \<Rightarrow> []))
        \<and> ((logs_of (fst (outboundLoop script)) = []) =
             (rd_err io = Some EOF \<and> (rd_data io = [] \<or> wr_err io = None)))
        \<and> (rd_data io \<noteq> [] \<and> wr_err io \<noteq> None \<longrightarrow>
             (\<exists>pre. fst (outboundLoop script) =
                pre @ [ReaderRead readBufSize (rd_data io) (rd_err io),
                       SetWriteDeadline writeDeadline,
                       WriteMessage BinaryMessage (rd_data io),
                       Log (WriteWsFailed (the (wr_err io)))])))
   \<and> map snd (frames_of (fst (outboundLoop script))) =
       filter (\<lambda>d. d \<noteq> []) (reads_of (fst (outboundLoop script))))"
    by (rule conjI)
  from n1 r2 show ?thesis
    by (rule conjI)
qed

text \<open>
  Claim C5 as stated fails where a read returns bytes together with an error and the
  write of those bytes fails: the loop returns after logging the write failure, so a
  read error other than \<^verbatim>\<open>io.EOF\<close> is not logged, and a read that returned \<^verbatim>\<open>io.EOF\<close> ends
  the loop with a logged error.
\<close>

theorem outbound_read_error_not_logged:
  "snd (outboundLoop [\<lparr>rd_data = ''x'', rd_err = Some (ReadErr ''broken pipe''), wr_err = Some ''i/o timeout''\<rparr>]) = Returned
   \<and> logs_of (fst (outboundLoop [\<lparr>rd_data = ''x'', rd_err = Some (ReadErr ''broken pipe''), wr_err = Some ''i/o timeout''\<rparr>]))
       = [WriteWsFailed ''i/o timeout'']
   \<and> snd (outboundLoop [\<lparr>rd_data = ''x'', rd_err = Some EOF, wr_err = Some ''i/o timeout''\<rparr>]) = Returned
   \<and> logs_of (fst (outboundLoop [\<lparr>rd_data = ''x'', rd_err = Some EOF, wr_err = Some ''i/o timeout''\<rparr>]))
       = [WriteWsFailed ''i/o timeout'']"
  by (simp add: outboundIter_def)

theorem outbound_exit_witness:
  "find (\<lambda>io. (rd_data io \<noteq> [] \<and> wr_err io \<noteq> None) \<or> rd_err io \<noteq> None)
     [\<lparr>rd_data = ''a'', rd_err = None, wr_err = None\<rparr>] = None
   \<and> rd_data \<lparr>rd_data = ''x'', rd_err = Some EOF, wr_err = Some ''i/o timeout''\<rparr> \<noteq> []
   \<and> wr_err \<lparr>rd_data = ''x'', rd_err = Some EOF, wr_err = Some ''i/o timeout''\<rparr> \<noteq> None
   \<and> outboundLoop ([\<lparr>rd_data = ''a'', rd_err = None, wr_err = None\<rparr>] @
                    \<lparr>rd_data = ''x'', rd_err = Some EOF, wr_err = Some ''i/o timeout''\<rparr> #
                    [\<lparr>rd_data = ''y'', rd_err = None, wr_err = None\<rparr>]) =
       ([ReaderRead readBufSize ''a'' None, SetWriteDeadline writeDeadline,
         WriteMessage BinaryMessage ''a'',
         ReaderRead readBufSize ''x'' (Some EOF), SetWriteDeadline writeDeadline,
         WriteMessage BinaryMessage ''x'', Log (WriteWsFailed ''i/o timeout'')], Returned)
   \<and> exit_io [\<lparr>rd_data = ''a'', rd_err = None, wr_err = None\<rparr>,
              \<lparr>rd_data = ''x'', rd_err = Some EOF, wr_err = Some ''i/o timeout''\<rparr>]
       = Some \<lparr>rd_data = ''x'', rd_err = Some EOF, wr_err = Some ''i/o timeout''\<rparr>
   \<and> snd (outboundLoop [\<lparr>rd_data = ''a'', rd_err = None, wr_err = None\<rparr>,
                        \<lparr>rd_data = ''x'', rd_err = Some EOF, wr_err = Some ''i/o timeout''\<rparr>])
       = Returned
   \<and> logs_of (fst (outboundLoop [\<lparr>rd_data = ''a'', rd_err = None, wr_err = None\<rparr>,
                        \<lparr>rd_data = ''x'', rd_err = Some EOF, wr_err = Some ''i/o timeout''\<rparr>]))
       = [WriteWsFailed ''i/o timeout'']
   \<and> rd_err \<lparr>rd_data = [], rd_err = Some EOF, wr_err = None\<rparr> \<noteq> None
   \<and> outboundLoop ([] @ \<lparr>rd_data = [], rd_err = Some EOF, wr_err = None\<rparr> #
                    [\<lparr>rd_data = ''y'', rd_err = None, wr_err = None\<rparr>]) =
       ([ReaderRead readBufSize [] (Some EOF)], Returned)
   \<and> outboundLoop ([] @ \<lparr>rd_data = [], rd_err = Some (ReadErr ''broken pipe''), wr_err = None\<rparr> #
                    [\<lparr>rd_data = ''y'', rd_err = None, wr_err = None\<rparr>]) =
       ([ReaderRead readBufSize [] (Some (ReadErr ''broken pipe'')),
         Log (ReadDockerFailed ''broken pipe'')], Returned)
   \<and> outboundIter \<lparr>rd_data = ''a'', rd_err = None, wr_err = None\<rparr> =
       ([ReaderRead readBufSize ''a'' None, SetWriteDeadline writeDeadline,
         WriteMessage BinaryMessage ''a''], True)"
proof -
  let ?a = "\<lparr>rd_data = ''a'', rd_err = None, wr_err = None\<rparr>"
  let ?io = "\<lparr>rd_data = ''x'', rd_err = Some EOF, wr_err = Some ''i/o timeout''\<rparr>"
  let ?y = "\<lparr>rd_data = ''y'', rd_err = None, wr_err = None\<rparr>"
  let ?eof = "\<lparr>rd_data = [], rd_err = Some EOF, wr_err = None\<rparr>"
  let ?bp = "\<lparr>rd_data = [], rd_err = Some (ReadErr ''broken pipe''), wr_err = None\<rparr>"
  let ?s = "[?a, ?io]"
  let ?stop = "\<lambda>io. (rd_data io \<noteq> [] \<and> wr_err io \<noteq> None) \<or> rd_err io \<noteq> None"
  have pa: "fst (outboundLoop [?a]) =
      [ReaderRead readBufSize ''a'' None, SetWriteDeadline writeDeadline,
       WriteMessage BinaryMessage ''a'']"
    by (simp add: outboundIter_def)
  have f1: "find ?stop [?a] = None" and f0: "find ?stop [] = None"
    by simp_all
  have s1: "(rd_data ?io \<noteq> [] \<and> wr_err ?io \<noteq> None) \<or> rd_err ?io \<noteq> None"
    and s2: "(rd_data ?eof \<noteq> [] \<and> wr_err ?eof \<noteq> None) \<or> rd_err ?eof \<noteq> None"
    and s3: "(rd_data ?bp \<noteq> [] \<and> wr_err ?bp \<noteq> None) \<or> rd_err ?bp \<noteq> None"
    and g: "rd_err ?a = None \<and> (rd_data ?a = [] \<or> wr_err ?a = None)"
    by simp_all
  have n4: "find ?stop pre = None \<and> ?stop io \<Longrightarrow>
      outboundLoop (pre @ io # rest) =
        (fst (outboundLoop pre) @
         [ReaderRead readBufSize (rd_data io) (rd_err io)] @
         (if rd_data io = [] then []
          else [SetWriteDeadline writeDeadline, WriteMessage BinaryMessage (rd_data io)]) @
         map Log (if rd_data io \<noteq> [] \<and> wr_err io \<noteq> None
                  then [WriteWsFailed (the (wr_err io))]
                  else (case rd_err io of Some (ReadErr e) \<Rightarrow> [ReadDockerFailed e] | _ \<Rightarrow> [])),
         Returned)" for pre io rest
    using outbound_exit [of ?s, THEN conjunct2, THEN conjunct2, THEN conjunct2, THEN conjunct1]
    by blast
  have n5: "rd_err io = None \<and> (rd_data io = [] \<or> wr_err io = None) \<Longrightarrow>
      outboundIter io =
        ([ReaderRead readBufSize (rd_data io) None] @
         (if rd_data io = [] then []
          else [SetWriteDeadline writeDeadline, WriteMessage BinaryMessage (rd_data io)]),
         True)" for io
    using outbound_exit [of ?s, THEN conjunct2, THEN conjunct2, THEN conjunct2, THEN conjunct2,
        THEN conjunct1]
    by blast
  from n4 [of "[?a]" ?io "[?y]"] f1 s1
  have t1: "outboundLoop ([?a] @ ?io # [?y]) =
       ([ReaderRead readBufSize ''a'' None, SetWriteDeadline writeDeadline,
         WriteMessage BinaryMessage ''a'',
         ReaderRead readBufSize ''x'' (Some EOF), SetWriteDeadline writeDeadline,
         WriteMessage BinaryMessage ''x'', Log (WriteWsFailed ''i/o timeout'')], Returned)"
    by (simp add: pa del: outboundLoop.simps append.simps)
  have x: "exit_io ?s = Some ?io"
    by (simp add: outboundIter_def)
  with outbound_exit [of ?s, THEN conjunct2, THEN conjunct2, THEN conjunct2, THEN conjunct2,
      THEN conjunct2]
  have r: "snd (outboundLoop ?s) = Returned"
    and l: "logs_of (fst (outboundLoop ?s)) =
           (if rd_data ?io \<noteq> [] \<and> wr_err ?io \<noteq> None then [WriteWsFailed (the (wr_err ?io))]
            else (case rd_err ?io of Some (ReadErr e) \<Rightarrow> [ReadDockerFailed e] | _ \<Rightarrow> []))"
    by blast+
  from n4 [of "[]" ?eof "[?y]"] f0 s2
  have t2: "outboundLoop ([] @ ?eof # [?y]) = ([ReaderRead readBufSize [] (Some EOF)], Returned)"
    by (simp del: outboundLoop.simps(2) append.simps)
  from n4 [of "[]" ?bp "[?y]"] f0 s3
  have t3: "outboundLoop ([] @ ?bp # [?y]) =
       ([ReaderRead readBufSize [] (Some (ReadErr ''broken pipe'')),
         Log (ReadDockerFailed ''broken pipe'')], Returned)"
    by (simp del: outboundLoop.simps(2) append.simps)
  from n5 [of ?a] g
  have t4: "outboundIter ?a =
       ([ReaderRead readBufSize ''a'' None, SetWriteDeadline writeDeadline,
         WriteMessage BinaryMessage ''a''], True)"
    by simp
  have h: "rd_data ?io \<noteq> []" "wr_err ?io \<noteq> None" "rd_err ?eof \<noteq> None"
    by simp_all
  from l have l': "logs_of (fst (outboundLoop ?s)) = [WriteWsFailed ''i/o timeout'']"
    by simp
  show ?thesis
    using f1 h(1,2) t1 x r l' h(3) t2 t3 t4 by (intro conjI)
qed

subsection \<open>The inbound loop and the resize frames\<close>

lemma inboundLoop_Cons:
  "inboundLoop um x (m # rest) =
     (if snd (inboundIter um x m)
      then (fst (inboundIter um x m) @ fst (inboundLoop um x rest), snd (inboundLoop um x rest))
      else (fst (inboundIter um x m), Returned))"
  by (simp split: prod.splits bool.splits)

lemma inboundLoop_append:
  "inboundLoop um x (pre @ rest) =
     (if snd (inboundLoop um x pre) = Blocked
      then (fst (inboundLoop um x pre) @ fst (inboundLoop um x rest), snd (inboundLoop um x rest))
      else inboundLoop um x pre)"
proof (induction pre)
  case Nil
  show ?case by simp
next
  case (Cons m pre)
  show ?case
    unfolding append_Cons inboundLoop_Cons [of um x m "pre @ rest"] inboundLoop_Cons [of um x m pre] Cons.IH
    by (cases "snd (inboundLoop um x pre)") simp_all
qed

lemma inboundIter_resize:
  assumes "in_err m = None" and "in_mt m \<noteq> CloseMessage" and "in_payload m \<noteq> []"
    and "hd (in_payload m) = CHR ''{''" and "um (in_payload m) = Some msg"
    and "Type msg = ''resize''"
  shows "inboundIter um x m =
           ([ReadMessage (in_mt m) (in_payload m) None,
             ContainerExecResize x (Rows msg) (Cols msg)] @
            (case resize_err m of Some e \<Rightarrow> [Log (ResizeFailed e)] | None \<Rightarrow> []), True)"
  using assms by (simp add: inboundIter_def Let_def)

lemma inboundIter_forward:
  assumes "in_err m = None" and "in_mt m \<noteq> CloseMessage" and "in_payload m \<noteq> []"
    and "\<not> resize_frame um m"
  shows "inboundIter um x m =
           ([ReadMessage (in_mt m) (in_payload m) None, ConnWrite (in_payload m)] @
            (case conn_err m of Some e \<Rightarrow> [Log (WriteDockerFailed e)] | None \<Rightarrow> []),
            conn_err m = None)"
  using assms
  by (auto simp add: inboundIter_def resize_frame_def Let_def split: option.splits)

lemma resize_frame_iter:
  assumes "resize_frame um m"
  shows "\<exists>msg. um (in_payload m) = Some msg \<and> Type msg = ''resize'' \<and>
           inboundIter um x m =
             ([ReadMessage (in_mt m) (in_payload m) None,
               ContainerExecResize x (Rows msg) (Cols msg)] @
              (case resize_err m of Some e \<Rightarrow> [Log (ResizeFailed e)] | None \<Rightarrow> []), True)"
proof -
  from assms obtain msg where "um (in_payload m) = Some msg" and "Type msg = ''resize''"
    by (auto simp add: resize_frame_def split: option.splits)
  moreover from assms have "in_err m = None" "in_mt m \<noteq> CloseMessage" "in_payload m \<noteq> []"
    "hd (in_payload m) = CHR ''{''"
    by (simp_all add: resize_frame_def)
  ultimately show ?thesis
    using inboundIter_resize [of m um msg x] by blast
qed

lemma resize_log_projections:
  "conn_writes_of (case r of Some e \<Rightarrow> [Log (ResizeFailed e)] | None \<Rightarrow> []) = []"
  "resizes_of (case r of Some e \<Rightarrow> [Log (ResizeFailed e)] | None \<Rightarrow> []) = []"
  "frames_of (case r of Some e \<Rightarrow> [Log (ResizeFailed e)] | None \<Rightarrow> []) = []"
  by (simp_all split: option.splits)

text \<open>
  Claim C1. Let the inbound loop read, while it is running, a text message that is not
  empty, starts with an opening brace, is decoded by \<^verbatim>\<open>json.Unmarshal\<close> without error and
  has the type \<^verbatim>\<open>"resize"\<close>. Then the calls of that iteration are the read, one
  \<^verbatim>\<open>ContainerExecResize\<close> with \<^verbatim>\<open>Height\<close> the decoded rows and \<^verbatim>\<open>Width\<close> the decoded cols,
  and a log line when that call fails; the loop goes on with the next message. Nothing is
  written to the exec input for the frame: the writes of the whole loop are those of the
  messages before and after it.
\<close>

theorem resize_frame_one_call_no_input:
  assumes "snd (inboundLoop um x pre) = Blocked"
    and "in_err m = None" and "in_mt m = TextMessage" and "in_payload m \<noteq> []"
    and "hd (in_payload m) = CHR ''{''" and "um (in_payload m) = Some msg"
    and "Type msg = ''resize''"
  shows "inboundLoop um x (pre @ m # rest) =
           (fst (inboundLoop um x pre) @
            [ReadMessage TextMessage (in_payload m) None,
             ContainerExecResize x (Rows msg) (Cols msg)] @
            (case resize_err m of Some e \<Rightarrow> [Log (ResizeFailed e)] | None \<Rightarrow> []) @
            fst (inboundLoop um x rest), snd (inboundLoop um x rest))
       \<and> resizes_of (fst (inboundIter um x m)) = [(x, Rows msg, Cols msg)]
       \<and> conn_writes_of (fst (inboundIter um x m)) = []
       \<and> conn_writes_of (fst (inboundLoop um x (pre @ m # rest))) =
           conn_writes_of (fst (inboundLoop um x pre)) @
           conn_writes_of (fst (inboundLoop um x rest))"
proof -
  have nc: "in_mt m \<noteq> CloseMessage"
    using assms(3) by (simp add: TextMessage_def CloseMessage_def)
  have it: "inboundIter um x m =
           ([ReadMessage TextMessage (in_payload m) None,
             ContainerExecResize x (Rows msg) (Cols msg)] @
            (case resize_err m of Some e \<Rightarrow> [Log (ResizeFailed e)] | None \<Rightarrow> []), True)"
    using inboundIter_resize [of m um msg x] assms(2-7) nc by simp
  have lp: "inboundLoop um x (pre @ m # rest) =
           (fst (inboundLoop um x pre) @
            [ReadMessage TextMessage (in_payload m) None,
             ContainerExecResize x (Rows msg) (Cols msg)] @
            (case resize_err m of Some e \<Rightarrow> [Log (ResizeFailed e)] | None \<Rightarrow> []) @
            fst (inboundLoop um x rest), snd (inboundLoop um x rest))"
    using assms(1) by (simp add: inboundLoop_append inboundLoop_Cons it del: inboundLoop.simps(2))
  show ?thesis
    unfolding lp by (simp add: it conn_writes_of_append resizes_of_append resize_log_projections)
qed

lemma sample_resize_120_40:
  \<open>sample_unmarshal ''{"type":"resize","cols":120,"rows":40}'' =
     Some \<lparr>Type = ''resize'', Cols = 120, Rows = 40\<rparr>\<close>
  by (simp add: sample_unmarshal_def)

theorem resize_frame_one_call_no_input_witness:
  \<open>snd (inboundLoop sample_unmarshal ''exec1'' [binary_frame ''ls'']) = Blocked
   \<and> in_err (text_frame ''{"type":"resize","cols":120,"rows":40}'') = None
   \<and> in_mt (text_frame ''{"type":"resize","cols":120,"rows":40}'') = TextMessage
   \<and> in_payload (text_frame ''{"type":"resize","cols":120,"rows":40}'') \<noteq> []
   \<and> hd (in_payload (text_frame ''{"type":"resize","cols":120,"rows":40}'')) = CHR ''{''
   \<and> sample_unmarshal (in_payload (text_frame ''{"type":"resize","cols":120,"rows":40}'')) =
       Some \<lparr>Type = ''resize'', Cols = 120, Rows = 40\<rparr>
   \<and> inboundLoop sample_unmarshal ''exec1''
        ([binary_frame ''ls''] @ text_frame ''{"type":"resize","cols":120,"rows":40}'' #
         [binary_frame ''pwd'']) =
       ([ReadMessage BinaryMessage ''ls'' None, ConnWrite ''ls'',
         ReadMessage TextMessage ''{"type":"resize","cols":120,"rows":40}'' None,
         ContainerExecResize ''exec1'' 40 120,
         ReadMessage BinaryMessage ''pwd'' None, ConnWrite ''pwd''], Blocked)\<close>
proof -
  let ?p = \<open>''{"type":"resize","cols":120,"rows":40}''\<close>
  let ?msg = "\<lparr>Type = ''resize'', Cols = 120, Rows = 40\<rparr>"
  have pre: "inboundLoop sample_unmarshal ''exec1'' [binary_frame ''ls''] =
               ([ReadMessage BinaryMessage ''ls'' None, ConnWrite ''ls''], Blocked)"
    by (simp add: inboundIter_def Let_def binary_frame_def BinaryMessage_def CloseMessage_def)
  have rest: "inboundLoop sample_unmarshal ''exec1'' [binary_frame ''pwd''] =
               ([ReadMessage BinaryMessage ''pwd'' None, ConnWrite ''pwd''], Blocked)"
    by (simp add: inboundIter_def Let_def binary_frame_def BinaryMessage_def CloseMessage_def)
  have h1: "snd (inboundLoop sample_unmarshal ''exec1'' [binary_frame ''ls'']) = Blocked"
    by (simp only: pre snd_conv)
  have h2: "in_err (text_frame ?p) = None" and h3: "in_mt (text_frame ?p) = TextMessage"
    and h4: "in_payload (text_frame ?p) \<noteq> []" and h5: "hd (in_payload (text_frame ?p)) = CHR ''{''"
    by (simp_all add: text_frame_def)
  have h6: "sample_unmarshal (in_payload (text_frame ?p)) = Some ?msg"
    by (simp add: text_frame_def sample_resize_120_40)
  have h7: "Type ?msg = ''resize''"
    by simp
  have r: "resize_err (text_frame ?p) = None" and pl: "in_payload (text_frame ?p) = ?p"
    by (simp_all add: text_frame_def)
  from resize_frame_one_call_no_input [OF h1 h2 h3 h4 h5 h6 h7, of "[binary_frame ''pwd'']"]
  have "inboundLoop sample_unmarshal ''exec1''
          ([binary_frame ''ls''] @ text_frame ?p # [binary_frame ''pwd'']) =
        ([ReadMessage BinaryMessage ''ls'' None, ConnWrite ''ls'',
          ReadMessage TextMessage ?p None,
          ContainerExecResize ''exec1'' 40 120,
          ReadMessage BinaryMessage ''pwd'' None, ConnWrite ''pwd''], Blocked)"
    unfolding pre rest r pl by simp
  with h1 h2 h3 h4 h5 h6 show ?thesis
    by (intro conjI)
qed


lemmas inbound_eval =
  inboundIter_def Let_def text_frame_def binary_frame_def
  TextMessage_def BinaryMessage_def CloseMessage_def

text \<open>
  Claim C4. A payload that reaches the demultiplexer (a message read without error that
  is not a close message and not empty) is written to the exec input, byte for byte and
  exactly once, if and only if it is not a resize frame. A payload that does not start
  with an opening brace is always written, and the decoder has no part in what happens
  to it; a payload that starts with a brace and is rejected by the decoder, or is
  decoded with another type than \<^verbatim>\<open>"resize"\<close>, is written as well.
\<close>

theorem payload_forwarded_unless_resize:
  assumes "in_err m = None" and "in_mt m \<noteq> CloseMessage" and "in_payload m \<noteq> []"
  shows "conn_writes_of (fst (inboundIter um x m)) =
           (if resize_frame um m then [] else [in_payload m])
       \<and> (resizes_of (fst (inboundIter um x m)) = []) = (\<not> resize_frame um m)
       \<and> (\<not> resize_frame um m \<longrightarrow>
            inboundIter um x m =
              ([ReadMessage (in_mt m) (in_payload m) None, ConnWrite (in_payload m)] @
               (case conn_err m of Some e \<Rightarrow> [Log (WriteDockerFailed e)] | None \<Rightarrow> []),
               conn_err m = None))
       \<and> (hd (in_payload m) \<noteq> CHR ''{'' \<longrightarrow>
            \<not> resize_frame um m \<and> (\<forall>um'. inboundIter um' x m = inboundIter um x m))
       \<and> (hd (in_payload m) = CHR ''{'' \<and> um (in_payload m) = None \<longrightarrow> \<not> resize_frame um m)
       \<and> (\<forall>msg. hd (in_payload m) = CHR ''{'' \<and> um (in_payload m) = Some msg \<and>
              Type msg \<noteq> ''resize'' \<longrightarrow> \<not> resize_frame um m)"
proof -
  have fw: "inboundIter um x m =
              ([ReadMessage (in_mt m) (in_payload m) None, ConnWrite (in_payload m)] @
               (case conn_err m of Some e \<Rightarrow> [Log (WriteDockerFailed e)] | None \<Rightarrow> []),
               conn_err m = None)"
    if "\<not> resize_frame um m" for um
    using inboundIter_forward [OF assms that] .
  have a: "conn_writes_of (fst (inboundIter um x m)) =
           (if resize_frame um m then [] else [in_payload m])"
  proof (cases "resize_frame um m")
    case True
    from resize_frame_iter [OF True, of x] show ?thesis
      using True by (auto simp add: conn_writes_of_append resize_log_projections)
  next
    case False
    then show ?thesis
      by (simp add: fw split: option.splits)
  qed
  have b: "(resizes_of (fst (inboundIter um x m)) = []) = (\<not> resize_frame um m)"
  proof (cases "resize_frame um m")
    case True
    from resize_frame_iter [OF True, of x] show ?thesis
      using True by auto
  next
    case False
    then show ?thesis
      by (simp add: fw split: option.splits)
  qed
  have c: "\<not> resize_frame um' m" if "hd (in_payload m) \<noteq> CHR ''{''" for um'
    using that by (simp add: resize_frame_def)
  have d: "inboundIter um' x m = inboundIter um x m" if "hd (in_payload m) \<noteq> CHR ''{''" for um'
    using c [OF that] by (simp add: fw)
  have e: "\<not> resize_frame um m" if "um (in_payload m) = None"
    using that by (simp add: resize_frame_def)
  have f: "\<not> resize_frame um m" if "um (in_payload m) = Some msg" and "Type msg \<noteq> ''resize''" for msg
    using that by (simp add: resize_frame_def)
  show ?thesis
    using a b fw [of um] c d e f by blast
qed

theorem payload_forwarded_unless_resize_witness:
  \<open>in_err (binary_frame ''ls'') = None \<and> in_mt (binary_frame ''ls'') \<noteq> CloseMessage
   \<and> in_payload (binary_frame ''ls'') \<noteq> [] \<and> hd (in_payload (binary_frame ''ls'')) \<noteq> CHR ''{''
   \<and> inboundIter sample_unmarshal ''exec1'' (binary_frame ''ls'') =
       ([ReadMessage BinaryMessage ''ls'' None, ConnWrite ''ls''], True)
   \<and> hd (in_payload (text_frame ''{not json'')) = CHR ''{''
   \<and> sample_unmarshal (in_payload (text_frame ''{not json'')) = None
   \<and> inboundIter sample_unmarshal ''exec1'' (text_frame ''{not json'') =
       ([ReadMessage TextMessage ''{not json'' None, ConnWrite ''{not json''], True)
   \<and> hd (in_payload (text_frame ''{"type":"ping"}'')) = CHR ''{''
   \<and> sample_unmarshal (in_payload (text_frame ''{"type":"ping"}'')) =
       Some \<lparr>Type = ''ping'', Cols = 0, Rows = 0\<rparr>
   \<and> inboundIter sample_unmarshal ''exec1'' (text_frame ''{"type":"ping"}'') =
       ([ReadMessage TextMessage ''{"type":"ping"}'' None, ConnWrite ''{"type":"ping"}''], True)
   \<and> resize_frame sample_unmarshal (text_frame ''{"type":"resize","cols":120,"rows":40}'')
   \<and> conn_writes_of (fst (inboundIter sample_unmarshal ''exec1''
         (text_frame ''{"type":"resize","cols":120,"rows":40}''))) = []\<close>
proof -
  let ?a = "binary_frame ''ls''"
  let ?b = "text_frame ''{not json''"
  let ?c = \<open>text_frame ''{"type":"ping"}''\<close>
  let ?d = \<open>text_frame ''{"type":"resize","cols":120,"rows":40}''\<close>
  have ha: "in_err ?a = None" "in_mt ?a \<noteq> CloseMessage" "in_payload ?a \<noteq> []"
    and hb: "in_err ?b = None" "in_mt ?b \<noteq> CloseMessage" "in_payload ?b \<noteq> []"
    and hc: "in_err ?c = None" "in_mt ?c \<noteq> CloseMessage" "in_payload ?c \<noteq> []"
    and hd: "in_err ?d = None" "in_mt ?d \<noteq> CloseMessage" "in_payload ?d \<noteq> []"
    by (simp_all add: inbound_eval)
  have a1: "hd (in_payload ?a) \<noteq> CHR ''{''"
    by (simp add: binary_frame_def)
  have b1: "hd (in_payload ?b) = CHR ''{''" and b2: "sample_unmarshal (in_payload ?b) = None"
    by (simp_all add: text_frame_def sample_unmarshal_def)
  have c1: "hd (in_payload ?c) = CHR ''{''"
    and c2: "sample_unmarshal (in_payload ?c) = Some \<lparr>Type = ''ping'', Cols = 0, Rows = 0\<rparr>"
    and c3: "Type \<lparr>Type = ''ping'', Cols = 0, Rows = 0\<rparr> \<noteq> ''resize''"
    by (simp_all add: text_frame_def sample_unmarshal_def)
  have d1: "resize_frame sample_unmarshal ?d"
    by (simp add: resize_frame_def inbound_eval sample_unmarshal_def)
  from payload_forwarded_unless_resize [OF ha, of sample_unmarshal "''exec1''"] a1
  have ra: "inboundIter sample_unmarshal ''exec1'' ?a =
              ([ReadMessage BinaryMessage ''ls'' None, ConnWrite ''ls''], True)"
    by (simp add: binary_frame_def)
  from payload_forwarded_unless_resize [OF hb, of sample_unmarshal "''exec1''"] b1 b2
  have rb: "inboundIter sample_unmarshal ''exec1'' ?b =
              ([ReadMessage TextMessage ''{not json'' None, ConnWrite ''{not json''], True)"
    by (simp add: text_frame_def)
  from payload_forwarded_unless_resize [OF hc, of sample_unmarshal "''exec1''"] c1 c2 c3
  have rc: \<open>inboundIter sample_unmarshal ''exec1'' ?c =
              ([ReadMessage TextMessage ''{"type":"ping"}'' None, ConnWrite ''{"type":"ping"}''], True)\<close>
    by (simp add: text_frame_def)
  from payload_forwarded_unless_resize [OF hd, of sample_unmarshal "''exec1''"] d1
  have rd: "conn_writes_of (fst (inboundIter sample_unmarshal ''exec1'' ?d)) = []"
    by simp
  show ?thesis
    using ha(1-3) a1 ra b1 b2 rb c1 c2 rc d1 rd by (intro conjI)
qed


lemma resize_frame_resize_err [simp]:
  "resize_frame um (m\<lparr>resize_err := r\<rparr>) = resize_frame um m"
  by (simp add: resize_frame_def)

lemma resize_frame_continues:
  "resize_frame um m \<Longrightarrow> snd (inboundIter um x m)"
  using resize_frame_iter [of um m x] by auto

lemma resize_frame_no_write:
  "resize_frame um m \<Longrightarrow> conn_writes_of (fst (inboundIter um x m)) = []"
  using resize_frame_iter [of um m x]
  by (auto simp add: conn_writes_of_append resize_log_projections)

lemma inboundLoop_running_Cons:
  assumes "snd (inboundLoop um x pre) = Blocked" and "snd (inboundIter um x m)"
  shows "inboundLoop um x (pre @ m # rest) =
           (fst (inboundLoop um x pre) @ fst (inboundIter um x m) @ fst (inboundLoop um x rest),
            snd (inboundLoop um x rest))"
  using assms by (simp add: inboundLoop_append inboundLoop_Cons del: inboundLoop.simps(2))

text \<open>
  Claim C8. When \<^verbatim>\<open>ContainerExecResize\<close> fails for a resize frame, the failure is logged,
  nothing is written to the exec input, and the loop goes round again: what it does
  afterwards is what it does on the rest of the script. Whatever the call returns, the
  iteration continues the loop and writes nothing.
\<close>

theorem resize_failure_not_fatal:
  assumes "snd (inboundLoop um x pre) = Blocked" and "resize_frame um m"
    and "resize_err m = Some e"
  shows "(\<exists>msg. um (in_payload m) = Some msg \<and>
            inboundIter um x m =
              ([ReadMessage (in_mt m) (in_payload m) None,
                ContainerExecResize x (Rows msg) (Cols msg),
                Log (ResizeFailed e)], True))
       \<and> conn_writes_of (fst (inboundIter um x m)) = []
       \<and> inboundLoop um x (pre @ m # rest) =
           (fst (inboundLoop um x pre) @ fst (inboundIter um x m) @ fst (inboundLoop um x rest),
            snd (inboundLoop um x rest))
       \<and> (\<forall>r. snd (inboundIter um x (m\<lparr>resize_err := r\<rparr>))
              \<and> conn_writes_of (fst (inboundIter um x (m\<lparr>resize_err := r\<rparr>))) = []
              \<and> snd (inboundLoop um x (pre @ m\<lparr>resize_err := r\<rparr> # rest)) =
                  snd (inboundLoop um x rest))"
proof -
  from resize_frame_iter [OF assms(2), of x] assms(3)
  have a: "\<exists>msg. um (in_payload m) = Some msg \<and>
            inboundIter um x m =
              ([ReadMessage (in_mt m) (in_payload m) None,
                ContainerExecResize x (Rows msg) (Cols msg),
                Log (ResizeFailed e)], True)"
    by auto
  have b: "conn_writes_of (fst (inboundIter um x m)) = []"
    using assms(2) by (rule resize_frame_no_write)
  have c: "inboundLoop um x (pre @ m # rest) =
           (fst (inboundLoop um x pre) @ fst (inboundIter um x m) @ fst (inboundLoop um x rest),
            snd (inboundLoop um x rest))"
    using assms(1) resize_frame_continues [OF assms(2)] by (rule inboundLoop_running_Cons)
  have d: "snd (inboundIter um x (m\<lparr>resize_err := r\<rparr>))
         \<and> conn_writes_of (fst (inboundIter um x (m\<lparr>resize_err := r\<rparr>))) = []
         \<and> snd (inboundLoop um x (pre @ m\<lparr>resize_err := r\<rparr> # rest)) =
             snd (inboundLoop um x rest)" for r
  proof -
    have rf: "resize_frame um (m\<lparr>resize_err := r\<rparr>)"
      using assms(2) by simp
    show ?thesis
      using resize_frame_continues [OF rf, of x] resize_frame_no_write [OF rf, of x]
        inboundLoop_running_Cons [OF assms(1) resize_frame_continues [OF rf, of x], of rest]
      by simp
  qed
  show ?thesis
    using a b c d by blast
qed

theorem resize_failure_not_fatal_witness:
  \<open>snd (inboundLoop sample_unmarshal ''exec1'' [binary_frame ''ls'']) = Blocked
   \<and> resize_frame sample_unmarshal
        ((text_frame ''{"type":"resize","cols":120,"rows":40}'')\<lparr>resize_err := Some ''no such exec''\<rparr>)
   \<and> resize_err
        ((text_frame ''{"type":"resize","cols":120,"rows":40}'')\<lparr>resize_err := Some ''no such exec''\<rparr>)
       = Some ''no such exec''
   \<and> inboundLoop sample_unmarshal ''exec1''
        ([binary_frame ''ls''] @
         (text_frame ''{"type":"resize","cols":120,"rows":40}'')\<lparr>resize_err := Some ''no such exec''\<rparr> #
         [binary_frame ''pwd'']) =
       ([ReadMessage BinaryMessage ''ls'' None, ConnWrite ''ls'',
         ReadMessage TextMessage ''{"type":"resize","cols":120,"rows":40}'' None,
         ContainerExecResize ''exec1'' 40 120,
         Log (ResizeFailed ''no such exec''),
         ReadMessage BinaryMessage ''pwd'' None, ConnWrite ''pwd''], Blocked)\<close>
proof -
  let ?m = \<open>(text_frame ''{"type":"resize","cols":120,"rows":40}'')\<lparr>resize_err := Some ''no such exec''\<rparr>\<close>
  have pre: "inboundLoop sample_unmarshal ''exec1'' [binary_frame ''ls''] =
               ([ReadMessage BinaryMessage ''ls'' None, ConnWrite ''ls''], Blocked)"
    by (simp add: inbound_eval)
  have rest: "inboundLoop sample_unmarshal ''exec1'' [binary_frame ''pwd''] =
               ([ReadMessage BinaryMessage ''pwd'' None, ConnWrite ''pwd''], Blocked)"
    by (simp add: inbound_eval)
  have h1: "snd (inboundLoop sample_unmarshal ''exec1'' [binary_frame ''ls'']) = Blocked"
    by (simp only: pre snd_conv)
  have h2: "resize_frame sample_unmarshal ?m"
    by (simp add: resize_frame_def inbound_eval sample_unmarshal_def)
  have h3: "resize_err ?m = Some ''no such exec''"
    by simp
  have it: \<open>fst (inboundIter sample_unmarshal ''exec1'' ?m) =
              [ReadMessage TextMessage ''{"type":"resize","cols":120,"rows":40}'' None,
               ContainerExecResize ''exec1'' 40 120,
               Log (ResizeFailed ''no such exec'')]\<close>
    by (simp add: inbound_eval sample_unmarshal_def)
  from resize_failure_not_fatal [OF h1 h2 h3, where rest = "[binary_frame ''pwd'']"]
  have "inboundLoop sample_unmarshal ''exec1'' ([binary_frame ''ls''] @ ?m # [binary_frame ''pwd'']) =
          (fst (inboundLoop sample_unmarshal ''exec1'' [binary_frame ''ls'']) @
           fst (inboundIter sample_unmarshal ''exec1'' ?m) @
           fst (inboundLoop sample_unmarshal ''exec1'' [binary_frame ''pwd'']),
           snd (inboundLoop sample_unmarshal ''exec1'' [binary_frame ''pwd'']))"
    by blast
  then have \<open>inboundLoop sample_unmarshal ''exec1'' ([binary_frame ''ls''] @ ?m # [binary_frame ''pwd'']) =
       ([ReadMessage BinaryMessage ''ls'' None, ConnWrite ''ls'',
         ReadMessage TextMessage ''{"type":"resize","cols":120,"rows":40}'' None,
         ContainerExecResize ''exec1'' 40 120,
         Log (ResizeFailed ''no such exec''),
         ReadMessage BinaryMessage ''pwd'' None, ConnWrite ''pwd''], Blocked)\<close>
    unfolding pre rest it by simp
  with h1 h2 h3 show ?thesis
    by (intro conjI)
qed

text \<open>
  Claim C10. The inline resize path does not look at the dimensions. A payload that
  starts with a brace, is decoded without error and has the type \<^verbatim>\<open>"resize"\<close> is a resize
  frame whatever the decoder left in \<^verbatim>\<open>Cols\<close> and \<^verbatim>\<open>Rows\<close>: one \<^verbatim>\<open>ContainerExecResize\<close> is
  made with those values and nothing is written to the exec input. In particular, with
  both at zero (given as zero, or absent from the frame) the call is made with height 0
  and width 0.
\<close>

theorem resize_dimensions_not_validated:
  assumes "in_err m = None" and "in_mt m \<noteq> CloseMessage" and "in_payload m \<noteq> []"
    and "hd (in_payload m) = CHR ''{''" and "um (in_payload m) = Some msg"
    and "Type msg = ''resize''"
  shows "resize_frame um m
       \<and> (\<forall>c r. inboundIter (\<lambda>p. map_option (\<lambda>k. k\<lparr>Cols := c, Rows := r\<rparr>) (um p)) x m =
            ([ReadMessage (in_mt m) (in_payload m) None, ContainerExecResize x r c] @
             (case resize_err m of Some e \<Rightarrow> [Log (ResizeFailed e)] | None \<Rightarrow> []), True))
       \<and> (Cols msg = 0 \<and> Rows msg = 0 \<longrightarrow>
            inboundIter um x m =
              ([ReadMessage (in_mt m) (in_payload m) None, ContainerExecResize x 0 0] @
               (case resize_err m of Some e \<Rightarrow> [Log (ResizeFailed e)] | None \<Rightarrow> []), True)
            \<and> resizes_of (fst (inboundIter um x m)) = [(x, 0, 0)]
            \<and> conn_writes_of (fst (inboundIter um x m)) = [])"
proof -
  have a: "resize_frame um m"
    using assms by (simp add: resize_frame_def)
  have b: "inboundIter (\<lambda>p. map_option (\<lambda>k. k\<lparr>Cols := c, Rows := r\<rparr>) (um p)) x m =
            ([ReadMessage (in_mt m) (in_payload m) None, ContainerExecResize x r c] @
             (case resize_err m of Some e \<Rightarrow> [Log (ResizeFailed e)] | None \<Rightarrow> []), True)" for c r
    using inboundIter_resize [of m "\<lambda>p. map_option (\<lambda>k. k\<lparr>Cols := c, Rows := r\<rparr>) (um p)"
        "msg\<lparr>Cols := c, Rows := r\<rparr>" x] assms
    by simp
  have c: "inboundIter um x m =
              ([ReadMessage (in_mt m) (in_payload m) None, ContainerExecResize x 0 0] @
               (case resize_err m of Some e \<Rightarrow> [Log (ResizeFailed e)] | None \<Rightarrow> []), True)"
    if "Cols msg = 0 \<and> Rows msg = 0"
    using inboundIter_resize [of m um msg x] assms that by simp
  have d: "resizes_of (fst (inboundIter um x m)) = [(x, 0, 0)]"
    and e: "conn_writes_of (fst (inboundIter um x m)) = []"
    if "Cols msg = 0 \<and> Rows msg = 0"
    unfolding c [OF that] by (simp_all add: resize_log_projections)
  show ?thesis
    using a b c d e by blast
qed

theorem resize_dimensions_not_validated_witness:
  \<open>in_err (text_frame ''{"type":"resize","cols":0,"rows":0}'') = None
   \<and> in_mt (text_frame ''{"type":"resize","cols":0,"rows":0}'') \<noteq> CloseMessage
   \<and> in_payload (text_frame ''{"type":"resize","cols":0,"rows":0}'') \<noteq> []
   \<and> hd (in_payload (text_frame ''{"type":"resize","cols":0,"rows":0}'')) = CHR ''{''
   \<and> sample_unmarshal (in_payload (text_frame ''{"type":"resize","cols":0,"rows":0}'')) =
       Some \<lparr>Type = ''resize'', Cols = 0, Rows = 0\<rparr>
   \<and> inboundIter sample_unmarshal ''exec1'' (text_frame ''{"type":"resize","cols":0,"rows":0}'') =
       ([ReadMessage TextMessage ''{"type":"resize","cols":0,"rows":0}'' None,
         ContainerExecResize ''exec1'' 0 0], True)
   \<and> sample_unmarshal (in_payload (text_frame ''{"type":"resize"}'')) =
       Some \<lparr>Type = ''resize'', Cols = 0, Rows = 0\<rparr>
   \<and> inboundIter sample_unmarshal ''exec1'' (text_frame ''{"type":"resize"}'') =
       ([ReadMessage TextMessage ''{"type":"resize"}'' None,
         ContainerExecResize ''exec1'' 0 0], True)\<close>
proof -
  let ?a = \<open>text_frame ''{"type":"resize","cols":0,"rows":0}''\<close>
  let ?b = \<open>text_frame ''{"type":"resize"}''\<close>
  let ?msg = "\<lparr>Type = ''resize'', Cols = 0, Rows = 0\<rparr>"
  have ha: "in_err ?a = None" "in_mt ?a \<noteq> CloseMessage" "in_payload ?a \<noteq> []"
      "hd (in_payload ?a) = CHR ''{''" "sample_unmarshal (in_payload ?a) = Some ?msg"
    and hb: "in_err ?b = None" "in_mt ?b \<noteq> CloseMessage" "in_payload ?b \<noteq> []"
      "hd (in_payload ?b) = CHR ''{''" "sample_unmarshal (in_payload ?b) = Some ?msg"
    by (simp_all add: inbound_eval sample_unmarshal_def)
  have ty: "Type ?msg = ''resize''" and z: "Cols ?msg = 0 \<and> Rows ?msg = 0"
    by simp_all
  from resize_dimensions_not_validated
      [where m = ?a and um = sample_unmarshal and msg = ?msg and x = "''exec1''"] ha ty z
  have ra: \<open>inboundIter sample_unmarshal ''exec1'' ?a =
       ([ReadMessage TextMessage ''{"type":"resize","cols":0,"rows":0}'' None,
         ContainerExecResize ''exec1'' 0 0], True)\<close>
    by (simp add: text_frame_def)
  from resize_dimensions_not_validated
      [where m = ?b and um = sample_unmarshal and msg = ?msg and x = "''exec1''"] hb ty z
  have rb: \<open>inboundIter sample_unmarshal ''exec1'' ?b =
       ([ReadMessage TextMessage ''{"type":"resize"}'' None,
         ContainerExecResize ''exec1'' 0 0], True)\<close>
    by (simp add: text_frame_def)
  show ?thesis
    using ha ra hb(5) rb by (intro conjI)
qed

subsection \<open>The resize endpoint\<close>

lemma ParseUint_empty: "ParseUint [] = Inl ErrSyntax"
  by (simp add: ParseUint_def)

lemma ParseUint_zero: "ParseUint ''0'' = Inr 0"
  by (simp add: ParseUint_def Let_def)

lemma Get_missing: "q key = [] \<Longrightarrow> Get q key = []"
  by (simp add: Get_def)

lemma valid_dim_empty: "\<not> valid_dim []"
  by (simp add: valid_dim_def ParseUint_empty)

lemma valid_dim_zero: "\<not> valid_dim ''0''"
  by (simp add: valid_dim_def ParseUint_zero)

text \<open>What \<^verbatim>\<open>ParseUint\<close> accepts: a non-empty string of decimal digits with a value below \<open>2^32\<close>.\<close>

lemma parse_digits_step:
  assumes "parse_digits n (c # cs) = Inr v"
  shows "48 \<le> (of_char c :: nat) \<and> (of_char c :: nat) \<le> 57
       \<and> (n * 10 + ((of_char c :: nat) - 48)) mod 2 ^ 64 \<le> 2 ^ 32 - 1
       \<and> parse_digits ((n * 10 + ((of_char c :: nat) - 48)) mod 2 ^ 64) cs = Inr v"
proof (cases "48 \<le> (of_char c :: nat) \<and> (of_char c :: nat) \<le> 57")
  case False
  with assms show ?thesis
    by (simp only: parse_digits.simps if_False sum.distinct)
next
  case True
  let ?n1 = "(n * 10 + ((of_char c :: nat) - 48)) mod 2 ^ 64"
  from assms True have a: "(if n \<ge> (2 ^ 64 - 1) div 10 + 1 then Inl ErrRange
      else if ?n1 < n * 10 \<or> ?n1 > 2 ^ 32 - 1 then Inl ErrRange else parse_digits ?n1 cs) = Inr v"
    by (simp only: parse_digits.simps if_True Let_def simp_thms)
  then have b: "\<not> (?n1 < n * 10 \<or> ?n1 > 2 ^ 32 - 1)" and c: "parse_digits ?n1 cs = Inr v"
    by (simp_all only: sum.distinct simp_thms split: if_splits)
  from b have "?n1 \<le> 2 ^ 32 - 1"
    by (simp only: de_Morgan_disj not_less)
  with True c show ?thesis
    by (intro conjI) simp_all
qed

lemma parse_digits_digits:
  "parse_digits n s = Inr v \<Longrightarrow> list_all (\<lambda>c. 48 \<le> (of_char c :: nat) \<and> (of_char c :: nat) \<le> 57) s"
proof (induction s arbitrary: n)
  case Nil
  show ?case by simp
next
  case (Cons c cs)
  from parse_digits_step [OF Cons.prems] Cons.IH show ?case
    by (simp only: list.pred_inject) blast
qed

lemma parse_digits_range:
  "parse_digits n s = Inr v \<Longrightarrow> n \<le> 2 ^ 32 - 1 \<Longrightarrow> v \<le> 2 ^ 32 - 1"
proof (induction s arbitrary: n)
  case Nil
  then show ?case by simp
next
  case (Cons c cs)
  from parse_digits_step [OF Cons.prems(1)] Cons.IH show ?case
    by blast
qed

lemma ParseUint_ok:
  assumes "ParseUint s = Inr v"
  shows "s \<noteq> [] \<and> list_all (\<lambda>c. 48 \<le> (of_char c :: nat) \<and> (of_char c :: nat) \<le> 57) s \<and> v < 2 ^ 32"
proof -
  from assms have ne: "s \<noteq> []" and p: "parse_digits 0 s = Inr v"
    by (simp_all add: ParseUint_def split: if_splits)
  from parse_digits_range [OF p] have "v \<le> 2 ^ 32 - 1"
    by simp
  then have "v < 2 ^ 32"
    by simp
  with ne parse_digits_digits [OF p] show ?thesis
    by simp
qed

lemma valid_dim_digits:
  assumes "valid_dim s"
  shows "s \<noteq> [] \<and> list_all (\<lambda>c. 48 \<le> (of_char c :: nat) \<and> (of_char c :: nat) \<le> 57) s
       \<and> 0 < dim_value s \<and> dim_value s < 2 ^ 32"
proof -
  from assms obtain v where p: "ParseUint s = Inr v" and v: "v \<noteq> 0"
    by (auto simp add: valid_dim_def split: sum.splits)
  from ParseUint_ok [OF p] v p show ?thesis
    by (simp add: dim_value_def)
qed


lemma resizeHandler_cases:
  assumes \<open>req_method r = ''POST''\<close>
  shows \<open>Get (req_query r) ''id'' = [] \<Longrightarrow>
           resizeHandler r res = [HttpError ''missing "id" query parameter'' 400]\<close>
    and \<open>Get (req_query r) ''id'' \<noteq> [] \<Longrightarrow> \<not> valid_dim (Get (req_query r) ''w'') \<Longrightarrow>
           resizeHandler r res = [HttpError ''invalid "w" (cols) parameter'' 400]\<close>
    and \<open>Get (req_query r) ''id'' \<noteq> [] \<Longrightarrow> valid_dim (Get (req_query r) ''w'') \<Longrightarrow>
           \<not> valid_dim (Get (req_query r) ''h'') \<Longrightarrow>
           resizeHandler r res = [HttpError ''invalid "h" (rows) parameter'' 400]\<close>
    and \<open>Get (req_query r) ''id'' \<noteq> [] \<Longrightarrow> valid_dim (Get (req_query r) ''w'') \<Longrightarrow>
           valid_dim (Get (req_query r) ''h'') \<Longrightarrow>
           resizeHandler r res =
             ContainerResize (Get (req_query r) ''id'') (dim_value (Get (req_query r) ''h''))
               (dim_value (Get (req_query r) ''w'')) #
             (case res of None \<Rightarrow> [WriteHeader 200, ResponseWrite ''ok'']
              | Some e \<Rightarrow> [HttpError (''resize failed: '' @ e) 500])\<close>
  using assms
  by (simp_all add: resizeHandler_def valid_dim_def dim_value_def Let_def
      split: sum.splits option.splits)


text \<open>
  Claim C7, as the code has it. For a POST request the endpoint answers 400 exactly when
  the \<^verbatim>\<open>id\<close> parameter is missing or empty, or \<^verbatim>\<open>w\<close> or \<^verbatim>\<open>h\<close> is not a valid dimension
  (missing, rejected by \<^verbatim>\<open>ParseUint\<close>, or zero); with a 400 no resize call is made.
  Otherwise exactly one \<^verbatim>\<open>ContainerResize\<close> is made, with the \<^verbatim>\<open>id\<close> as it was given,
  \<^verbatim>\<open>Height\<close> the parsed \<^verbatim>\<open>h\<close> and \<^verbatim>\<open>Width\<close> the parsed \<^verbatim>\<open>w\<close>, and the answer is 200 with the
  body \<^verbatim>\<open>ok\<close> when the call succeeds and 500 when it fails. The only check of \<^verbatim>\<open>id\<close> in the
  source is that it is not the empty string.
\<close>

theorem resize_endpoint_responses:
  assumes "req_method r = ''POST''"
  shows "(statuses_of (resizeHandler r res) = [400]) =
           (Get (req_query r) ''id'' = [] \<or> \<not> valid_dim (Get (req_query r) ''w'') \<or>
            \<not> valid_dim (Get (req_query r) ''h''))
       \<and> (statuses_of (resizeHandler r res) = [400] \<longrightarrow>
            docker_resizes_of (resizeHandler r res) = [])
       \<and> (Get (req_query r) ''id'' \<noteq> [] \<and> valid_dim (Get (req_query r) ''w'') \<and>
          valid_dim (Get (req_query r) ''h'') \<longrightarrow>
            docker_resizes_of (resizeHandler r res) =
              [(Get (req_query r) ''id'', dim_value (Get (req_query r) ''h''),
                dim_value (Get (req_query r) ''w''))]
            \<and> (res = None \<longrightarrow>
                 statuses_of (resizeHandler r res) = [200] \<and> body_of (resizeHandler r res) = ''ok'')
            \<and> (res \<noteq> None \<longrightarrow> statuses_of (resizeHandler r res) = [500]))
       \<and> (req_query r ''id'' = [] \<or> req_query r ''w'' = [] \<or> req_query r ''h'' = [] \<longrightarrow>
            statuses_of (resizeHandler r res) = [400])
       \<and> (Get (req_query r) ''w'' = ''0'' \<or> Get (req_query r) ''h'' = ''0'' \<longrightarrow>
            statuses_of (resizeHandler r res) = [400])
       \<and> (\<forall>e. ParseUint (Get (req_query r) ''w'') = Inl e \<or>
              ParseUint (Get (req_query r) ''h'') = Inl e \<longrightarrow>
            statuses_of (resizeHandler r res) = [400])"
proof -
  let ?id = "Get (req_query r) ''id''"
  let ?w = "Get (req_query r) ''w''"
  let ?h = "Get (req_query r) ''h''"
  let ?bad = "?id = [] \<or> \<not> valid_dim ?w \<or> \<not> valid_dim ?h"
  have bad: "statuses_of (resizeHandler r res) = [400] \<and> docker_resizes_of (resizeHandler r res) = []"
    if ?bad
    using that resizeHandler_cases(1-3) [OF assms, of res]
    by (cases "?id = []"; cases "valid_dim ?w") auto
  have good: "docker_resizes_of (resizeHandler r res) = [(?id, dim_value ?h, dim_value ?w)]
      \<and> (res = None \<longrightarrow>
           statuses_of (resizeHandler r res) = [200] \<and> body_of (resizeHandler r res) = ''ok'')
      \<and> (res \<noteq> None \<longrightarrow> statuses_of (resizeHandler r res) = [500])"
    if "\<not> ?bad"
    using that resizeHandler_cases(4) [OF assms, of res]
    by (auto split: option.splits)
  have a: "(statuses_of (resizeHandler r res) = [400]) = ?bad"
  proof (cases ?bad)
    case True
    with bad show ?thesis by blast
  next
    case False
    with good have "statuses_of (resizeHandler r res) \<noteq> [400]"
      by (cases res) auto
    with False show ?thesis by blast
  qed
  have missing: ?bad if "req_query r ''id'' = [] \<or> req_query r ''w'' = [] \<or> req_query r ''h'' = []"
    using that Get_missing [of "req_query r"] valid_dim_empty by metis
  have zero: ?bad if "?w = ''0'' \<or> ?h = ''0''"
    using that valid_dim_zero by metis
  have unparse: ?bad if "ParseUint ?w = Inl e \<or> ParseUint ?h = Inl e" for e
    using that by (auto simp add: valid_dim_def)
  show ?thesis
    using a bad good missing zero unparse by blast
qed


text \<open>
  Claim C7 as stated fails for an \<^verbatim>\<open>id\<close> that is zero or otherwise not the ID of a
  container: the handler does not look at a non-empty \<^verbatim>\<open>id\<close>. With \<^verbatim>\<open>id=0\<close> and valid
  dimensions the resize call is made with that \<^verbatim>\<open>id\<close>, and the answer is 200 when the call
  succeeds.
\<close>

theorem resize_endpoint_zero_id:
  "statuses_of (resizeHandler
      (sample_request ''POST'' [(''id'', ''0''), (''w'', ''80''), (''h'', ''24'')]) None) = [200]
   \<and> docker_resizes_of (resizeHandler
      (sample_request ''POST'' [(''id'', ''0''), (''w'', ''80''), (''h'', ''24'')]) None) =
       [(''0'', 24, 80)]"
  by (simp add: resizeHandler_def Get_def ParseUint_def Let_def sample_request_def)

theorem resize_endpoint_responses_witness:
  "req_method (sample_request ''POST'' [(''id'', ''abc123''), (''w'', ''0''), (''h'', ''40'')]) = ''POST''
   \<and> Get (req_query (sample_request ''POST'' [(''id'', ''abc123''), (''w'', ''0''), (''h'', ''40'')])) ''w'' = ''0''
   \<and> statuses_of (resizeHandler
         (sample_request ''POST'' [(''id'', ''abc123''), (''w'', ''0''), (''h'', ''40'')]) None) = [400]
   \<and> docker_resizes_of (resizeHandler
         (sample_request ''POST'' [(''id'', ''abc123''), (''w'', ''0''), (''h'', ''40'')]) None) = []
   \<and> req_method (sample_request ''POST'' [(''id'', ''abc123''), (''w'', ''120''), (''h'', ''40'')]) = ''POST''
   \<and> Get (req_query (sample_request ''POST'' [(''id'', ''abc123''), (''w'', ''120''), (''h'', ''40'')])) ''id'' \<noteq> []
   \<and> valid_dim (Get (req_query (sample_request ''POST'' [(''id'', ''abc123''), (''w'', ''120''), (''h'', ''40'')])) ''w'')
   \<and> valid_dim (Get (req_query (sample_request ''POST'' [(''id'', ''abc123''), (''w'', ''120''), (''h'', ''40'')])) ''h'')
   \<and> docker_resizes_of (resizeHandler
         (sample_request ''POST'' [(''id'', ''abc123''), (''w'', ''120''), (''h'', ''40'')]) None)
       = [(''abc123'', 40, 120)]
   \<and> statuses_of (resizeHandler
         (sample_request ''POST'' [(''id'', ''abc123''), (''w'', ''120''), (''h'', ''40'')]) None) = [200]
   \<and> body_of (resizeHandler
         (sample_request ''POST'' [(''id'', ''abc123''), (''w'', ''120''), (''h'', ''40'')]) None) = ''ok''
   \<and> statuses_of (resizeHandler
         (sample_request ''POST'' [(''id'', ''abc123''), (''w'', ''120''), (''h'', ''40'')])
         (Some ''no such container'')) = [500]"
proof -
  let ?r1 = "sample_request ''POST'' [(''id'', ''abc123''), (''w'', ''0''), (''h'', ''40'')]"
  let ?r2 = "sample_request ''POST'' [(''id'', ''abc123''), (''w'', ''120''), (''h'', ''40'')]"
  have m1: "req_method ?r1 = ''POST''" and m2: "req_method ?r2 = ''POST''"
    by (simp_all add: sample_request_def)
  have w1: "Get (req_query ?r1) ''w'' = ''0''"
    by (simp add: sample_request_def Get_def)
  have g2: "Get (req_query ?r2) ''id'' = ''abc123''" "Get (req_query ?r2) ''w'' = ''120''"
      "Get (req_query ?r2) ''h'' = ''40''"
    by (simp_all add: sample_request_def Get_def)
  have p: "ParseUint ''120'' = Inr 120" "ParseUint ''40'' = Inr 40"
    by (simp_all add: ParseUint_def Let_def)
  have v2: "Get (req_query ?r2) ''id'' \<noteq> []" "valid_dim (Get (req_query ?r2) ''w'')"
      "valid_dim (Get (req_query ?r2) ''h'')"
    unfolding g2 by (simp_all add: valid_dim_def p)
  have d2: "dim_value ''120'' = 120" "dim_value ''40'' = 40"
    by (simp_all add: dim_value_def p)
  from resize_endpoint_responses [OF m1, of None] w1
  have a: "statuses_of (resizeHandler ?r1 None) = [400]"
    and b: "docker_resizes_of (resizeHandler ?r1 None) = []"
    by blast+
  from resize_endpoint_responses [OF m2, of None, THEN conjunct2, THEN conjunct2, THEN conjunct1] v2
  have c: "docker_resizes_of (resizeHandler ?r2 None) = [(''abc123'', 40, 120)]"
    and d: "statuses_of (resizeHandler ?r2 None) = [200]"
    and e: "body_of (resizeHandler ?r2 None) = ''ok''"
    by (simp_all add: d2 g2)
  from resize_endpoint_responses [OF m2, of "Some ''no such container''",
      THEN conjunct2, THEN conjunct2, THEN conjunct1] v2
  have f: "statuses_of (resizeHandler ?r2 (Some ''no such container'')) = [500]"
    by simp
  show ?thesis
    using m1 w1 a b m2 v2 c d e f by (intro conjI)
qed

subsection \<open>The goroutines of a session\<close>

lemma loop_call_outboundIter: "list_all loop_call (fst (outboundIter io))"
  by (simp add: outboundIter_def Let_def split: option.splits read_error.splits)

lemma loop_call_outboundLoop: "list_all loop_call (fst (outboundLoop s))"
  by (induction s) (simp_all add: outboundLoop_Cons loop_call_outboundIter del: outboundLoop.simps(2))

lemma loop_call_inboundIter: "list_all loop_call (fst (inboundIter um x m))"
  by (simp add: inboundIter_def Let_def split: option.splits)

lemma loop_call_inboundLoop: "list_all loop_call (fst (inboundLoop um x s))"
  by (induction s) (simp_all add: inboundLoop_Cons loop_call_inboundIter del: inboundLoop.simps(2))

lemma goroutine_ok_calls: "list_all loop_call (fst r) \<Longrightarrow> goroutine_ok (goroutine_calls r)"
  by (cases r; cases "snd r") (auto simp add: goroutine_ok_def goroutine_calls_def)

lemma goroutine_ok_Nil: "goroutine_ok []"
  by (simp add: goroutine_ok_def)

lemma goroutine_ok_outbound: "goroutine_ok (outbound_calls env)"
  by (simp add: outbound_calls_def goroutine_ok_calls loop_call_outboundLoop)

lemma goroutine_ok_inbound: "goroutine_ok (inbound_calls um env)"
  by (simp add: inbound_calls_def goroutine_ok_calls loop_call_inboundLoop goroutine_ok_Nil
      split: sum.splits)

lemma loop_call_not_WgDone: "list_all loop_call evs \<Longrightarrow> WgDone \<notin> set evs"
  by (induction evs) auto

lemma WgDone_goroutine_calls:
  "list_all loop_call (fst r) \<Longrightarrow> (WgDone \<in> set (goroutine_calls r)) = (snd r = Returned)"
  by (cases r; cases "snd r") (auto simp add: goroutine_calls_def dest: loop_call_not_WgDone)

lemma goroutine_ok_next:
  assumes "goroutine_ok p" and "suffix (e # es) p"
  shows "(loop_call e \<or> e = Cancel \<or> e = WgDone)
       \<and> (e = WgDone \<longrightarrow> es = [])
       \<and> (e \<noteq> WgDone \<longrightarrow> (WgDone \<in> set es) = (WgDone \<in> set p))"
proof -
  from assms(1) obtain evs where lc: "list_all loop_call evs"
    and p: "p = evs \<or> p = evs @ [Cancel, WgDone]"
    by (auto simp add: goroutine_ok_def)
  have nd: "WgDone \<notin> set evs"
    using lc by (rule loop_call_not_WgDone)
  have lce: "loop_call a" if "a \<in> set evs" for a
    using lc that by (simp add: list_all_iff)
  from p show ?thesis
  proof
    assume "p = evs"
    with assms(2) obtain d where "evs = d @ e # es"
      by (auto simp add: suffix_def)
    with nd lce [of e] \<open>p = evs\<close> show ?thesis
      by auto
  next
    assume pe: "p = evs @ [Cancel, WgDone]"
    with assms(2) have "suffix (e # es) [Cancel, WgDone] \<or>
        (\<exists>xs'. e # es = xs' @ [Cancel, WgDone] \<and> suffix xs' evs)"
      by (simp add: suffix_append)
    then show ?thesis
    proof
      assume "suffix (e # es) [Cancel, WgDone]"
      then show ?thesis
        using pe by (auto simp add: suffix_Cons)
    next
      assume "\<exists>xs'. e # es = xs' @ [Cancel, WgDone] \<and> suffix xs' evs"
      then obtain xs' where x: "e # es = xs' @ [Cancel, WgDone]" and sx: "suffix xs' evs"
        by blast
      show ?thesis
      proof (cases xs')
        case Nil
        with x pe show ?thesis by auto
      next
        case (Cons a as)
        with x have "e = a" and es: "es = as @ [Cancel, WgDone]"
          by simp_all
        from sx Cons have "a \<in> set evs"
          by (auto simp add: suffix_def)
        with nd lce [of a] \<open>e = a\<close> es pe show ?thesis
          by auto
      qed
    qed
  qed
qed

lemma goroutine_ok_finished:
  assumes "goroutine_ok p" and "suffix r p" and "WgDone \<in> set p" and "WgDone \<notin> set r"
  shows "r = []"
proof (cases r)
  case Nil
  then show ?thesis .
next
  case (Cons e es)
  with goroutine_ok_next [OF assms(1), of e es] assms(2,3,4) show ?thesis
    by auto
qed

lemma session_suffix_cases:
  assumes "suffix r (session_calls cid x)"
  shows "r = [Upgrade, Log (CreatingExec cid), ContainerExecCreate cid, ContainerExecAttach x, Log (Attached x cid), WgAdd 2, GoOutbound, GoInbound, WgWait, Log (SessionEnded cid x), HijackClose, Cancel, WsClose]
       \<or> r = [Log (CreatingExec cid), ContainerExecCreate cid, ContainerExecAttach x, Log (Attached x cid), WgAdd 2, GoOutbound, GoInbound, WgWait, Log (SessionEnded cid x), HijackClose, Cancel, WsClose]
       \<or> r = [ContainerExecCreate cid, ContainerExecAttach x, Log (Attached x cid), WgAdd 2, GoOutbound, GoInbound, WgWait, Log (SessionEnded cid x), HijackClose, Cancel, WsClose]
       \<or> r = [ContainerExecAttach x, Log (Attached x cid), WgAdd 2, GoOutbound, GoInbound, WgWait, Log (SessionEnded cid x), HijackClose, Cancel, WsClose]
       \<or> r = [Log (Attached x cid), WgAdd 2, GoOutbound, GoInbound, WgWait, Log (SessionEnded cid x), HijackClose, Cancel, WsClose]
       \<or> r = [WgAdd 2, GoOutbound, GoInbound, WgWait, Log (SessionEnded cid x), HijackClose, Cancel, WsClose]
       \<or> r = [GoOutbound, GoInbound, WgWait, Log (SessionEnded cid x), HijackClose, Cancel, WsClose]
       \<or> r = [GoInbound, WgWait, Log (SessionEnded cid x), HijackClose, Cancel, WsClose]
       \<or> r = [WgWait, Log (SessionEnded cid x), HijackClose, Cancel, WsClose]
       \<or> r = [Log (SessionEnded cid x), HijackClose, Cancel, WsClose]
       \<or> r = [HijackClose, Cancel, WsClose]
       \<or> r = [Cancel, WsClose]
       \<or> r = [WsClose]
       \<or> r = []"
  using assms by (simp add: session_calls_def suffix_Cons)

lemma owes_range: "owes p t = 0 \<or> owes p t = 1"
  by (simp add: owes_def split: option.splits)

lemma owes_zero:
  "owes p t = 0 \<Longrightarrow> \<exists>r. t = Some r \<and> WgDone \<in> set p \<and> WgDone \<notin> set r"
  by (simp add: owes_def split: option.splits if_splits)

lemma session_inv_init:
  "session_inv cid x po pi
     \<lparr>mainT = session_calls cid x, outT = None, inT = None, wg = 0, trace = []\<rparr>"
  by (simp add: session_inv_def session_calls_def owes_def)

lemma session_inv_handler:
  assumes "session_inv cid x po pi c" and "goroutine_ok po" and "step po pi Handler c = Some c'"
    and "goroutine_ok pi"
  shows "session_inv cid x po pi c'"
proof -
  from assms(1) have "suffix (mainT c) (session_calls cid x)"
    by (simp add: session_inv_def)
  then have cases: "mainT c = [] \<or> (\<exists>e es. mainT c = e # es \<and> suffix (e # es) (session_calls cid x))"
    by (cases "mainT c") simp_all
  have c_nil: ?thesis if "mainT c = []"
    using that assms(3) by (simp add: step_def)
  have c0: ?thesis if "mainT c = [Upgrade, Log (CreatingExec cid), ContainerExecCreate cid, ContainerExecAttach x, Log (Attached x cid), WgAdd 2, GoOutbound, GoInbound, WgWait, Log (SessionEnded cid x), HijackClose, Cancel, WsClose]"
    using that assms(1,3) unfolding session_inv_def step_def
    by (auto simp add: enabled_def wg_after_def owes_def session_calls_def suffix_Cons
        split: if_splits)
  have c1: ?thesis if "mainT c = [Log (CreatingExec cid), ContainerExecCreate cid, ContainerExecAttach x, Log (Attached x cid), WgAdd 2, GoOutbound, GoInbound, WgWait, Log (SessionEnded cid x), HijackClose, Cancel, WsClose]"
    using that assms(1,3) unfolding session_inv_def step_def
    by (auto simp add: enabled_def wg_after_def owes_def session_calls_def suffix_Cons
        split: if_splits)
  have c2: ?thesis if "mainT c = [ContainerExecCreate cid, ContainerExecAttach x, Log (Attached x cid), WgAdd 2, GoOutbound, GoInbound, WgWait, Log (SessionEnded cid x), HijackClose, Cancel, WsClose]"
    using that assms(1,3) unfolding session_inv_def step_def
    by (auto simp add: enabled_def wg_after_def owes_def session_calls_def suffix_Cons
        split: if_splits)
  have c3: ?thesis if "mainT c = [ContainerExecAttach x, Log (Attached x cid), WgAdd 2, GoOutbound, GoInbound, WgWait, Log (SessionEnded cid x), HijackClose, Cancel, WsClose]"
    using that assms(1,3) unfolding session_inv_def step_def
    by (auto simp add: enabled_def wg_after_def owes_def session_calls_def suffix_Cons
        split: if_splits)
  have c4: ?thesis if "mainT c = [Log (Attached x cid), WgAdd 2, GoOutbound, GoInbound, WgWait, Log (SessionEnded cid x), HijackClose, Cancel, WsClose]"
    using that assms(1,3) unfolding session_inv_def step_def
    by (auto simp add: enabled_def wg_after_def owes_def session_calls_def suffix_Cons
        split: if_splits)
  have c5: ?thesis if "mainT c = [WgAdd 2, GoOutbound, GoInbound, WgWait, Log (SessionEnded cid x), HijackClose, Cancel, WsClose]"
    using that assms(1,3) unfolding session_inv_def step_def
    by (auto simp add: enabled_def wg_after_def owes_def session_calls_def suffix_Cons
        split: if_splits)
  have c6: ?thesis if "mainT c = [GoOutbound, GoInbound, WgWait, Log (SessionEnded cid x), HijackClose, Cancel, WsClose]"
    using that assms(1,3) unfolding session_inv_def step_def
    by (auto simp add: enabled_def wg_after_def owes_def session_calls_def suffix_Cons
        split: if_splits)
  have c7: ?thesis if "mainT c = [GoInbound, WgWait, Log (SessionEnded cid x), HijackClose, Cancel, WsClose]"
    using that assms(1,3) unfolding session_inv_def step_def
    by (auto simp add: enabled_def wg_after_def owes_def session_calls_def suffix_Cons
        split: if_splits)
  have c9: ?thesis if "mainT c = [Log (SessionEnded cid x), HijackClose, Cancel, WsClose]"
    using that assms(1,3) unfolding session_inv_def step_def
    by (auto simp add: enabled_def wg_after_def owes_def session_calls_def suffix_Cons
        split: if_splits)
  have c10: ?thesis if "mainT c = [HijackClose, Cancel, WsClose]"
    using that assms(1,3) unfolding session_inv_def step_def
    by (auto simp add: enabled_def wg_after_def owes_def session_calls_def suffix_Cons
        split: if_splits)
  have c11: ?thesis if "mainT c = [Cancel, WsClose]"
    using that assms(1,3) unfolding session_inv_def step_def
    by (auto simp add: enabled_def wg_after_def owes_def session_calls_def suffix_Cons
        split: if_splits)
  have c12: ?thesis if "mainT c = [WsClose]"
    using that assms(1,3) unfolding session_inv_def step_def
    by (auto simp add: enabled_def wg_after_def owes_def session_calls_def suffix_Cons
        split: if_splits)
  have c8: ?thesis if m: "mainT c = [WgWait, Log (SessionEnded cid x), HijackClose, Cancel, WsClose]"
  proof -
    from assms(3) m have en: "wg c = 0"
      and c': "c' = c\<lparr>mainT := [Log (SessionEnded cid x), HijackClose, Cancel, WsClose],
          wg := 0, trace := trace c @ [WgWait]\<rparr>"
      by (auto simp add: step_def enabled_def wg_after_def split: if_splits)
    from assms(1) m have w: "wg c = owes po (outT c) + owes pi (inT c)"
      and cnt: "int (count_list (trace c) WgDone) = (1 - owes po (outT c)) + (1 - owes pi (inT c))"
      and ncl: "HijackClose \<notin> set (trace c)" "WsClose \<notin> set (trace c)"
      and so: "\<forall>r. outT c = Some r \<longrightarrow> suffix r po"
      and si: "\<forall>r. inT c = Some r \<longrightarrow> suffix r pi"
      by (simp_all add: session_inv_def)
    from w en owes_range [of po "outT c"] owes_range [of pi "inT c"]
    have oz: "owes po (outT c) = 0" and iz: "owes pi (inT c) = 0"
      by auto
    from owes_zero [OF oz] obtain ro where ro: "outT c = Some ro" "WgDone \<in> set po" "WgDone \<notin> set ro"
      by blast
    from owes_zero [OF iz] obtain ri where ri: "inT c = Some ri" "WgDone \<in> set pi" "WgDone \<notin> set ri"
      by blast
    from goroutine_ok_finished [OF assms(2) _ ro(2,3)] so ro(1) have ro_nil: "ro = []"
      by simp
    from goroutine_ok_finished [OF assms(4) _ ri(2,3)] si ri(1) have ri_nil: "ri = []"
      by simp
    from cnt oz iz have two: "count_list (trace c) WgDone = 2"
      by simp
    show ?thesis
      unfolding session_inv_def c'
      using ro ri ro_nil ri_nil two ncl oz iz
      by (simp add: session_calls_def suffix_Cons owes_def)
  qed
  from session_suffix_cases [OF \<open>suffix (mainT c) (session_calls cid x)\<close>]
  show ?thesis
    using c_nil c0 c1 c2 c3 c4 c5 c6 c7 c8 c9 c10 c11 c12 by blast
qed

lemma session_inv_outbound:
  assumes "session_inv cid x po pi c" and "goroutine_ok po" and "step po pi Outbound c = Some c'"
  shows "session_inv cid x po pi c'"
proof -
  from assms(3) obtain e es where t: "outT c = Some (e # es)"
    and c': "c' = c\<lparr>outT := Some es, wg := wg_after e (wg c), trace := trace c @ [e]\<rparr>"
    by (auto simp add: step_def split: option.splits list.splits if_splits)
  from assms(1) t have sfx: "suffix (e # es) po"
    by (simp add: session_inv_def)
  from goroutine_ok_next [OF assms(2) sfx]
  have kind: "loop_call e \<or> e = Cancel \<or> e = WgDone"
    and last: "e = WgDone \<longrightarrow> es = []"
    and keep: "e \<noteq> WgDone \<longrightarrow> (WgDone \<in> set es) = (WgDone \<in> set po)"
    by simp_all
  from sfx have mem: "e \<in> set po"
    by (auto simp add: suffix_def)
  from sfx have sfx': "suffix es po"
    by (rule suffix_ConsD)
  from kind have ncl: "e \<noteq> HijackClose" "e \<noteq> WsClose"
    by auto
  from kind have wga: "e \<noteq> WgDone \<longrightarrow> wg_after e (wg c) = wg c"
    by (cases e) (simp_all add: wg_after_def)
  have wgd: "e = WgDone \<longrightarrow> wg_after e (wg c) = wg c - 1"
    by (simp add: wg_after_def)
  from assms(1) t have ww: "WgWait \<in> set (mainT c)" and ng: "GoOutbound \<notin> set (mainT c)"
    by (auto simp add: session_inv_def)
  from assms(1) have "suffix (mainT c) (session_calls cid x)"
    by (simp add: session_inv_def)
  from session_suffix_cases [OF this] ww ng
  have na: "WgAdd 2 \<notin> set (mainT c)"
    by auto
  have ow: "owes po (Some es) = (if e = WgDone then 0 else owes po (Some (e # es)))"
    using last keep mem by (auto simp add: owes_def)
  have ow1: "e = WgDone \<longrightarrow> owes po (Some (e # es)) = 1"
    by (simp add: owes_def)
  show ?thesis
    using assms(1) t sfx' ncl wga wgd ww ng na ow ow1
    unfolding session_inv_def c'
    by (cases "e = WgDone") simp_all
qed

lemma session_inv_inbound:
  assumes "session_inv cid x po pi c" and "goroutine_ok pi" and "step po pi Inbound c = Some c'"
  shows "session_inv cid x po pi c'"
proof -
  from assms(3) obtain e es where t: "inT c = Some (e # es)"
    and c': "c' = c\<lparr>inT := Some es, wg := wg_after e (wg c), trace := trace c @ [e]\<rparr>"
    by (auto simp add: step_def split: option.splits list.splits if_splits)
  from assms(1) t have sfx: "suffix (e # es) pi"
    by (simp add: session_inv_def)
  from goroutine_ok_next [OF assms(2) sfx]
  have kind: "loop_call e \<or> e = Cancel \<or> e = WgDone"
    and last: "e = WgDone \<longrightarrow> es = []"
    and keep: "e \<noteq> WgDone \<longrightarrow> (WgDone \<in> set es) = (WgDone \<in> set pi)"
    by simp_all
  from sfx have mem: "e \<in> set pi"
    by (auto simp add: suffix_def)
  from sfx have sfx': "suffix es pi"
    by (rule suffix_ConsD)
  from kind have ncl: "e \<noteq> HijackClose" "e \<noteq> WsClose"
    by auto
  from kind have wga: "e \<noteq> WgDone \<longrightarrow> wg_after e (wg c) = wg c"
    by (cases e) (simp_all add: wg_after_def)
  have wgd: "e = WgDone \<longrightarrow> wg_after e (wg c) = wg c - 1"
    by (simp add: wg_after_def)
  from assms(1) t have ww: "WgWait \<in> set (mainT c)" and ng: "GoInbound \<notin> set (mainT c)"
    by (auto simp add: session_inv_def)
  from assms(1) have "suffix (mainT c) (session_calls cid x)"
    by (simp add: session_inv_def)
  from session_suffix_cases [OF this] ww ng
  have na: "WgAdd 2 \<notin> set (mainT c)"
    by auto
  have ow: "owes pi (Some es) = (if e = WgDone then 0 else owes pi (Some (e # es)))"
    using last keep mem by (auto simp add: owes_def)
  have ow1: "e = WgDone \<longrightarrow> owes pi (Some (e # es)) = 1"
    by (simp add: owes_def)
  show ?thesis
    using assms(1) t sfx' ncl wga wgd ww ng na ow ow1
    unfolding session_inv_def c'
    by (cases "e = WgDone") simp_all
qed

lemma session_inv_step:
  assumes "session_inv cid x po pi c" and "goroutine_ok po" and "goroutine_ok pi"
    and "step po pi g c = Some c'"
  shows "session_inv cid x po pi c'"
proof (cases g)
  case Handler
  with assms show ?thesis
    using session_inv_handler [of cid x po pi c c'] by simp
next
  case Outbound
  with assms show ?thesis
    using session_inv_outbound [of cid x po pi c c'] by simp
next
  case Inbound
  with assms show ?thesis
    using session_inv_inbound [of cid x po pi c c'] by simp
qed

lemma session_inv_run:
  assumes "goroutine_ok po" and "goroutine_ok pi"
  shows "session_inv cid x po pi c \<Longrightarrow> run po pi sched c = Some c' \<Longrightarrow> session_inv cid x po pi c'"
proof (induction sched arbitrary: c)
  case Nil
  then show ?case by simp
next
  case (Cons g gs)
  from Cons.prems(2) obtain c1 where s: "step po pi g c = Some c1" and r: "run po pi gs c1 = Some c'"
    by (auto split: option.splits)
  from session_inv_step [OF Cons.prems(1) assms s] have "session_inv cid x po pi c1" .
  from Cons.IH [OF this r] show ?case .
qed

lemma attachHandler_session:
  assumes "Get (req_query r) ''id'' \<noteq> []" and "upgrade_err env = None"
    and "exec_create env = Inr x" and "exec_attach_err env = None"
  shows "attachHandler r env = session_calls (Get (req_query r) ''id'') x"
  using assms by (simp add: attachHandler_def session_calls_def Let_def)

lemma split_after_prefix:
  assumes "t1 @ e # t2 = t @ d" and "e \<notin> set t"
  shows "\<exists>us. t1 = t @ us \<and> us @ e # t2 = d"
proof -
  from assms(1) have "(\<exists>us. t1 = t @ us \<and> us @ e # t2 = d) \<or> (\<exists>us. t1 @ us = t \<and> e # t2 = us @ d)"
    by (auto simp add: append_eq_append_conv2)
  then show ?thesis
  proof
    assume "\<exists>us. t1 = t @ us \<and> us @ e # t2 = d"
    then show ?thesis .
  next
    assume "\<exists>us. t1 @ us = t \<and> e # t2 = us @ d"
    then obtain us where u: "t1 @ us = t" "e # t2 = us @ d"
      by blast
    show ?thesis
    proof (cases us)
      case Nil
      with u show ?thesis by auto
    next
      case (Cons a as)
      with u have "e \<in> set t" by auto
      with assms(2) show ?thesis by simp
    qed
  qed
qed

lemma teardown_split:
  assumes "us @ e # t2 = d" and "e = HijackClose \<or> e = WsClose"
    and "prefix d [WgWait, Log l, HijackClose, Cancel, WsClose]"
  shows "WgDone \<notin> set us \<and> set t2 \<subseteq> {Cancel, WsClose}"
proof -
  from assms(3) have "d = [] \<or> d = [WgWait] \<or> d = [WgWait, Log l]
      \<or> d = [WgWait, Log l, HijackClose] \<or> d = [WgWait, Log l, HijackClose, Cancel]
      \<or> d = [WgWait, Log l, HijackClose, Cancel, WsClose]"
    by (auto simp add: prefix_Cons)
  with assms(1,2) show ?thesis
    by (elim disjE) (auto simp add: append_eq_Cons_conv Cons_eq_append_conv)
qed

text \<open>
  Claim C3. Take a session in which the upgrade, the creation of the exec and the
  attachment succeeded, under any schedule of the three goroutines and any scripts.
  \<^verbatim>\<open>hijack.Close()\<close> and \<^verbatim>\<open>ws.Close()\<close> are each called at most once, and exactly once when
  the handler has returned. Whenever one of them has been called, both loops had called
  \<^verbatim>\<open>wg.Done()\<close> before it, both loops have returned and have no call left to make, and
  only \<^verbatim>\<open>cancel()\<close> and \<^verbatim>\<open>ws.Close()\<close> can follow it.
\<close>

theorem session_closes_once:
  assumes "Get (req_query r) ''id'' \<noteq> []" and "upgrade_err env = None"
    and "exec_create env = Inr x" and "exec_attach_err env = None"
    and "attach_session um r env sched = Some c"
  shows "count_list (trace c) HijackClose \<le> 1 \<and> count_list (trace c) WsClose \<le> 1
       \<and> (mainT c = [] \<longrightarrow>
            count_list (trace c) HijackClose = 1 \<and> count_list (trace c) WsClose = 1)
       \<and> (\<forall>t1 t2. trace c = t1 @ HijackClose # t2 \<or> trace c = t1 @ WsClose # t2 \<longrightarrow>
            count_list t1 WgDone = 2 \<and> set t2 \<subseteq> {Cancel, WsClose}
            \<and> snd (outboundLoop (out_script env)) = Returned
            \<and> snd (inboundLoop um x (in_script env)) = Returned
            \<and> outT c = Some [] \<and> inT c = Some [])"
proof -
  let ?cid = "Get (req_query r) ''id''"
  let ?po = "outbound_calls env"
  let ?pi = "inbound_calls um env"
  let ?l = "SessionEnded ?cid x"
  have run: "run ?po ?pi sched
      \<lparr>mainT = session_calls ?cid x, outT = None, inT = None, wg = 0, trace = []\<rparr> = Some c"
    using assms(5) attachHandler_session [OF assms(1-4)] by (simp add: attach_session_def)
  have inv: "session_inv ?cid x ?po ?pi c"
    using session_inv_run [OF goroutine_ok_outbound goroutine_ok_inbound session_inv_init run] .
  have ret: "snd (outboundLoop (out_script env)) = Returned \<and>
             snd (inboundLoop um x (in_script env)) = Returned"
    if "WgDone \<in> set ?po" and "WgDone \<in> set ?pi"
    using that assms(3)
    by (simp add: outbound_calls_def inbound_calls_def WgDone_goroutine_calls
        loop_call_outboundLoop loop_call_inboundLoop)
  show ?thesis
  proof (cases "WgWait \<in> set (mainT c)")
    case True
    with inv have "HijackClose \<notin> set (trace c)" and "WsClose \<notin> set (trace c)"
      by (simp_all add: session_inv_def)
    moreover from True have "mainT c \<noteq> []"
      by auto
    ultimately show ?thesis
      by (auto simp add: count_list_0_iff)
  next
    case False
    with inv obtain t where fin: "outT c = Some []" "inT c = Some []"
      and wd: "WgDone \<in> set ?po" "WgDone \<in> set ?pi"
      and tr: "trace c @ mainT c = t @ [WgWait, Log ?l, HijackClose, Cancel, WsClose]"
      and nt: "HijackClose \<notin> set t" "WsClose \<notin> set t" and two: "count_list t WgDone = 2"
      by (auto simp add: session_inv_def)
    from inv have "suffix (mainT c) (session_calls ?cid x)"
      by (simp add: session_inv_def)
    from session_suffix_cases [OF this] False
    have mc: "mainT c = [Log ?l, HijackClose, Cancel, WsClose] \<or> mainT c = [HijackClose, Cancel, WsClose]
        \<or> mainT c = [Cancel, WsClose] \<or> mainT c = [WsClose] \<or> mainT c = []"
      by auto
    with tr obtain d where d: "trace c = t @ d"
      and pd: "prefix d [WgWait, Log ?l, HijackClose, Cancel, WsClose]"
      and dm: "d @ mainT c = [WgWait, Log ?l, HijackClose, Cancel, WsClose]"
      by (elim disjE) (auto simp add: prefix_def)
    have cnt: "count_list (trace c) HijackClose = count_list d HijackClose"
      "count_list (trace c) WsClose = count_list d WsClose"
      using d nt by (simp_all add: count_list_0_iff)
    have a: "count_list (trace c) HijackClose \<le> 1 \<and> count_list (trace c) WsClose \<le> 1"
      using mc dm unfolding cnt by (elim disjE) auto
    have b: "count_list (trace c) HijackClose = 1 \<and> count_list (trace c) WsClose = 1"
      if "mainT c = []"
      using that dm unfolding cnt by auto
    have e: "count_list t1 WgDone = 2 \<and> set t2 \<subseteq> {Cancel, WsClose}"
      if "trace c = t1 @ ev # t2" and "ev = HijackClose \<or> ev = WsClose" for t1 t2 ev
    proof -
      from that(2) nt have "ev \<notin> set t" by auto
      from split_after_prefix [OF _ this, of t1 t2 d] that(1) d
      obtain us where us: "t1 = t @ us" "us @ ev # t2 = d"
        by auto
      from teardown_split [OF us(2) that(2) pd] two us(1) show ?thesis
        by (simp add: count_list_0_iff)
    qed
    show ?thesis
      using a b e fin ret [OF wd] by blast
  qed
qed

lemmas session_eval =
  attach_session_def attachHandler_def outbound_calls_def inbound_calls_def goroutine_calls_def
  sample_env_def sample_request_def Get_def step_def enabled_def wg_after_def
  outboundIter_def inboundIter_def IsUnexpectedCloseError_def Let_def
  CloseGoingAway_def CloseNormalClosure_def CloseMessage_def

lemma sample_run_outbound_first:
  "attach_session sample_unmarshal (sample_request ''GET'' [(''id'', ''abc123'')]) sample_env
     outbound_first =
   Some \<lparr>mainT = [], outT = Some [], inT = Some [], wg = 0,
         trace = [Upgrade, Log (CreatingExec ''abc123''), ContainerExecCreate ''abc123'',
                  ContainerExecAttach ''exec1'', Log (Attached ''exec1'' ''abc123''),
                  WgAdd 2, GoOutbound, GoInbound,
                  ReaderRead readBufSize ''hi'' (Some EOF), SetWriteDeadline writeDeadline,
                  WriteMessage BinaryMessage ''hi'', Cancel, WgDone,
                  ReadMessage (- 1) [] (Some (CloseError 1000)), Cancel, WgDone,
                  WgWait, Log (SessionEnded ''abc123'' ''exec1''),
                  HijackClose, Cancel, WsClose]\<rparr>"
  by (simp add: session_eval outbound_first_def)

lemma sample_run_inbound_first:
  "attach_session sample_unmarshal (sample_request ''GET'' [(''id'', ''abc123'')]) sample_env
     inbound_first =
   Some \<lparr>mainT = [], outT = Some [], inT = Some [], wg = 0,
         trace = [Upgrade, Log (CreatingExec ''abc123''), ContainerExecCreate ''abc123'',
                  ContainerExecAttach ''exec1'', Log (Attached ''exec1'' ''abc123''),
                  WgAdd 2, GoOutbound, GoInbound,
                  ReadMessage (- 1) [] (Some (CloseError 1000)),
                  ReaderRead readBufSize ''hi'' (Some EOF),
                  Cancel, WgDone,
                  SetWriteDeadline writeDeadline,
                  WriteMessage BinaryMessage ''hi'', Cancel, WgDone,
                  WgWait, Log (SessionEnded ''abc123'' ''exec1''),
                  HijackClose, Cancel, WsClose]\<rparr>"
  by (simp add: session_eval inbound_first_def)

lemma sample_run_early_wait:
  "attach_session sample_unmarshal (sample_request ''GET'' [(''id'', ''abc123'')]) sample_env
     [Handler, Handler, Handler, Handler, Handler, Handler, Handler, Handler,
      Outbound, Outbound, Outbound, Outbound, Outbound, Handler] = None"
  by (simp add: session_eval)

theorem session_closes_once_witness:
  "Get (req_query (sample_request ''GET'' [(''id'', ''abc123'')])) ''id'' \<noteq> []
   \<and> upgrade_err sample_env = None \<and> exec_create sample_env = Inr ''exec1''
   \<and> exec_attach_err sample_env = None
   \<and> attach_session sample_unmarshal (sample_request ''GET'' [(''id'', ''abc123'')]) sample_env
        outbound_first \<noteq> None
   \<and> mainT (the (attach_session sample_unmarshal (sample_request ''GET'' [(''id'', ''abc123'')])
        sample_env outbound_first)) = []
   \<and> count_list (trace (the (attach_session sample_unmarshal
        (sample_request ''GET'' [(''id'', ''abc123'')]) sample_env outbound_first))) HijackClose = 1
   \<and> count_list (trace (the (attach_session sample_unmarshal
        (sample_request ''GET'' [(''id'', ''abc123'')]) sample_env outbound_first))) WsClose = 1
   \<and> attach_session sample_unmarshal (sample_request ''GET'' [(''id'', ''abc123'')]) sample_env
        inbound_first \<noteq> None
   \<and> mainT (the (attach_session sample_unmarshal (sample_request ''GET'' [(''id'', ''abc123'')])
        sample_env inbound_first)) = []
   \<and> count_list (trace (the (attach_session sample_unmarshal
        (sample_request ''GET'' [(''id'', ''abc123'')]) sample_env inbound_first))) HijackClose = 1
   \<and> count_list (trace (the (attach_session sample_unmarshal
        (sample_request ''GET'' [(''id'', ''abc123'')]) sample_env inbound_first))) WsClose = 1"
proof -
  let ?r = "sample_request ''GET'' [(''id'', ''abc123'')]"
  let ?a = "attach_session sample_unmarshal ?r sample_env outbound_first"
  let ?b = "attach_session sample_unmarshal ?r sample_env inbound_first"
  have h1: "Get (req_query ?r) ''id'' \<noteq> []"
    by (simp add: sample_request_def Get_def)
  have h2: "upgrade_err sample_env = None" and h3: "exec_create sample_env = Inr ''exec1''"
    and h4: "exec_attach_err sample_env = None"
    by (simp_all add: sample_env_def)
  have ra: "?a = Some (the ?a)" and ma: "mainT (the ?a) = []"
    by (simp_all add: sample_run_outbound_first)
  have rb: "?b = Some (the ?b)" and mb: "mainT (the ?b) = []"
    by (simp_all add: sample_run_inbound_first)
  from session_closes_once [OF h1 h2 h3 h4 ra] ma
  have ca: "count_list (trace (the ?a)) HijackClose = 1 \<and> count_list (trace (the ?a)) WsClose = 1"
    by blast
  from session_closes_once [OF h1 h2 h3 h4 rb] mb
  have cb: "count_list (trace (the ?b)) HijackClose = 1 \<and> count_list (trace (the ?b)) WsClose = 1"
    by blast
  have na: "?a \<noteq> None"
    by (simp add: sample_run_outbound_first)
  have nb: "?b \<noteq> None"
    by (simp add: sample_run_inbound_first)
  show ?thesis
    using h1 h2 h3 h4 na ma ca nb mb cb by (intro conjI) simp_all
qed

lemma no_go_run:
  assumes "GoOutbound \<notin> set (mainT c)" and "GoInbound \<notin> set (mainT c)"
    and "outT c = None" and "inT c = None" and "run po pi sched c = Some c'"
  shows "outT c' = None \<and> inT c' = None \<and> trace c' @ mainT c' = trace c @ mainT c"
  using assms
proof (induction sched arbitrary: c)
  case Nil
  then show ?case by simp
next
  case (Cons g gs)
  from Cons.prems(5) obtain c1 where s: "step po pi g c = Some c1" and r: "run po pi gs c1 = Some c'"
    by (auto split: option.splits)
  from s Cons.prems(3,4) have g: "g = Handler"
    by (cases g) (simp_all add: step_def)
  with s obtain e es where m: "mainT c = e # es"
    and c1: "c1 = c\<lparr>mainT := es, outT := (if e = GoOutbound then Some po else outT c),
        inT := (if e = GoInbound then Some pi else inT c), wg := wg_after e (wg c),
        trace := trace c @ [e]\<rparr>"
    by (auto simp add: step_def split: list.splits if_splits)
  from m Cons.prems(1,2) have ne: "e \<noteq> GoOutbound" "e \<noteq> GoInbound"
    and ns: "GoOutbound \<notin> set es" "GoInbound \<notin> set es"
    by auto
  have "outT c' = None \<and> inT c' = None \<and> trace c' @ mainT c' = trace c1 @ mainT c1"
    using Cons.IH [of c1] r ne ns Cons.prems(3,4) unfolding c1 by simp
  then show ?case
    unfolding c1 using m by simp
qed

lemma handler_returns:
  assumes "WgWait \<notin> set m" and "GoOutbound \<notin> set m" and "GoInbound \<notin> set m"
  shows "\<exists>w. run po pi (replicate (length m) Handler)
           \<lparr>mainT = m, outT = None, inT = None, wg = w0, trace = t\<rparr> =
         Some \<lparr>mainT = [], outT = None, inT = None, wg = w, trace = t @ m\<rparr>"
  using assms
proof (induction m arbitrary: w0 t)
  case Nil
  then show ?case by simp
next
  case (Cons e es)
  from Cons.prems have "WgWait \<notin> set es" "GoOutbound \<notin> set es" "GoInbound \<notin> set es"
    by simp_all
  from Cons.IH [OF this, of "wg_after e w0" "t @ [e]"]
  obtain w where "run po pi (replicate (length es) Handler)
           \<lparr>mainT = es, outT = None, inT = None, wg = wg_after e w0, trace = t @ [e]\<rparr> =
         Some \<lparr>mainT = [], outT = None, inT = None, wg = w, trace = (t @ [e]) @ es\<rparr>"
    by blast
  with Cons.prems show ?case
    by (auto simp add: step_def enabled_def)
qed

lemma attachHandler_failure:
  assumes "Get (req_query r) ''id'' \<noteq> []" and "upgrade_err env = None"
    and "exec_create env = Inl e \<or> (exec_create env = Inr x \<and> exec_attach_err env = Some e)"
  shows "attachHandler r env =
           [Upgrade, Log (CreatingExec (Get (req_query r) ''id'')),
            ContainerExecCreate (Get (req_query r) ''id'')] @
           (if exec_create env = Inl e
            then [Log (ExecCreateError e), WriteMessage TextMessage (''exec create error: '' @ e)]
            else [ContainerExecAttach x, Log (ExecAttachError e),
                  WriteMessage TextMessage (''exec attach error: '' @ e)]) @
           [Cancel, WsClose]"
  using assms by (auto simp add: attachHandler_def Let_def)

text \<open>
  Claim C6. When the creation of the exec fails, or the attachment does, the handler
  logs the error, writes one text frame with the error to the WebSocket, and returns
  through its deferred calls \<^verbatim>\<open>cancel()\<close> and \<^verbatim>\<open>ws.Close()\<close>: \<^verbatim>\<open>ContainerExecCreate\<close> is called
  once, there is no \<^verbatim>\<open>go\<close> statement and no \<^verbatim>\<open>hijack.Close()\<close> among its calls, and when the
  creation failed there is no \<^verbatim>\<open>ContainerExecAttach\<close> either. Under every schedule the two
  loops are never started and the calls made are a prefix of the handler's; the handler
  can always run to its end.
\<close>

theorem session_start_failure:
  assumes "Get (req_query r) ''id'' \<noteq> []" and "upgrade_err env = None"
    and "exec_create env = Inl e \<or> (exec_create env = Inr x \<and> exec_attach_err env = Some e)"
  shows "attachHandler r env =
           [Upgrade, Log (CreatingExec (Get (req_query r) ''id'')),
            ContainerExecCreate (Get (req_query r) ''id'')] @
           (if exec_create env = Inl e
            then [Log (ExecCreateError e), WriteMessage TextMessage (''exec create error: '' @ e)]
            else [ContainerExecAttach x, Log (ExecAttachError e),
                  WriteMessage TextMessage (''exec attach error: '' @ e)]) @
           [Cancel, WsClose]
       \<and> frames_of (attachHandler r env) =
           [(TextMessage, (if exec_create env = Inl e then ''exec create error: ''
                           else ''exec attach error: '') @ e)]
       \<and> GoOutbound \<notin> set (attachHandler r env) \<and> GoInbound \<notin> set (attachHandler r env)
       \<and> HijackClose \<notin> set (attachHandler r env)
       \<and> (exec_create env = Inl e \<longrightarrow> (\<forall>y. ContainerExecAttach y \<notin> set (attachHandler r env)))
       \<and> (\<forall>sched c. attach_session um r env sched = Some c \<longrightarrow>
             outT c = None \<and> inT c = None \<and> trace c @ mainT c = attachHandler r env)
       \<and> (\<exists>w. attach_session um r env (replicate (length (attachHandler r env)) Handler) =
             Some \<lparr>mainT = [], outT = None, inT = None, wg = w, trace = attachHandler r env\<rparr>)"
proof -
  let ?m = "attachHandler r env"
  have m: "?m =
           [Upgrade, Log (CreatingExec (Get (req_query r) ''id'')),
            ContainerExecCreate (Get (req_query r) ''id'')] @
           (if exec_create env = Inl e
            then [Log (ExecCreateError e), WriteMessage TextMessage (''exec create error: '' @ e)]
            else [ContainerExecAttach x, Log (ExecAttachError e),
                  WriteMessage TextMessage (''exec attach error: '' @ e)]) @
           [Cancel, WsClose]"
    using assms by (rule attachHandler_failure)
  have fr: "frames_of ?m =
           [(TextMessage, (if exec_create env = Inl e then ''exec create error: ''
                           else ''exec attach error: '') @ e)]"
    unfolding m by simp
  have ng: "GoOutbound \<notin> set ?m" "GoInbound \<notin> set ?m" and nw: "WgWait \<notin> set ?m"
    and nh: "HijackClose \<notin> set ?m"
    unfolding m by simp_all
  have na: "\<forall>y. ContainerExecAttach y \<notin> set ?m" if "exec_create env = Inl e"
    unfolding m using that by simp
  have reach: "outT c = None \<and> inT c = None \<and> trace c @ mainT c = ?m"
    if "attach_session um r env sched = Some c" for sched c
    using no_go_run [of "\<lparr>mainT = ?m, outT = None, inT = None, wg = 0, trace = []\<rparr>"
        "outbound_calls env" "inbound_calls um env" sched c] ng that
    by (simp add: attach_session_def)
  from handler_returns [OF nw ng, of "outbound_calls env" "inbound_calls um env" 0 "[]"]
  have fin: "\<exists>w. attach_session um r env (replicate (length ?m) Handler) =
             Some \<lparr>mainT = [], outT = None, inT = None, wg = w, trace = ?m\<rparr>"
    by (simp add: attach_session_def)
  show ?thesis
    using m fr ng nh na reach fin by blast
qed

theorem session_start_failure_witness:
  "Get (req_query (sample_request ''GET'' [(''id'', ''abc123'')])) ''id'' \<noteq> []
   \<and> upgrade_err (sample_env\<lparr>exec_create := Inl ''no such container''\<rparr>) = None
   \<and> exec_create (sample_env\<lparr>exec_create := Inl ''no such container''\<rparr>) = Inl ''no such container''
   \<and> attachHandler (sample_request ''GET'' [(''id'', ''abc123'')])
        (sample_env\<lparr>exec_create := Inl ''no such container''\<rparr>) =
       [Upgrade, Log (CreatingExec ''abc123''), ContainerExecCreate ''abc123'',
        Log (ExecCreateError ''no such container''),
        WriteMessage TextMessage ''exec create error: no such container'',
        Cancel, WsClose]
   \<and> attach_session sample_unmarshal (sample_request ''GET'' [(''id'', ''abc123'')])
        (sample_env\<lparr>exec_create := Inl ''no such container''\<rparr>) [Handler, Handler, Handler] =
       Some \<lparr>mainT = [Log (ExecCreateError ''no such container''),
                       WriteMessage TextMessage ''exec create error: no such container'',
                       Cancel, WsClose],
             outT = None, inT = None, wg = 0,
             trace = [Upgrade, Log (CreatingExec ''abc123''), ContainerExecCreate ''abc123'']\<rparr>
   \<and> exec_create (sample_env\<lparr>exec_attach_err := Some ''exec is not running''\<rparr>) = Inr ''exec1''
   \<and> exec_attach_err (sample_env\<lparr>exec_attach_err := Some ''exec is not running''\<rparr>) =
       Some ''exec is not running''
   \<and> attachHandler (sample_request ''GET'' [(''id'', ''abc123'')])
        (sample_env\<lparr>exec_attach_err := Some ''exec is not running''\<rparr>) =
       [Upgrade, Log (CreatingExec ''abc123''), ContainerExecCreate ''abc123'',
        ContainerExecAttach ''exec1'', Log (ExecAttachError ''exec is not running''),
        WriteMessage TextMessage ''exec attach error: exec is not running'',
        Cancel, WsClose]"
proof -
  let ?r = "sample_request ''GET'' [(''id'', ''abc123'')]"
  let ?e1 = "sample_env\<lparr>exec_create := Inl ''no such container''\<rparr>"
  let ?e2 = "sample_env\<lparr>exec_attach_err := Some ''exec is not running''\<rparr>"
  have h1: "Get (req_query ?r) ''id'' \<noteq> []" and id: "Get (req_query ?r) ''id'' = ''abc123''"
    by (simp_all add: sample_request_def Get_def)
  have u1: "upgrade_err ?e1 = None" and u2: "upgrade_err ?e2 = None"
    and f1: "exec_create ?e1 = Inl ''no such container''"
    and f2: "exec_create ?e2 = Inr ''exec1''"
    and f3: "exec_attach_err ?e2 = Some ''exec is not running''"
    by (simp_all add: sample_env_def)
  have d1: "exec_create ?e1 = Inl ''no such container'' \<or>
      (exec_create ?e1 = Inr ''exec1'' \<and> exec_attach_err ?e1 = Some ''no such container'')"
    using f1 by simp
  have d2: "exec_create ?e2 = Inl ''exec is not running'' \<or>
      (exec_create ?e2 = Inr ''exec1'' \<and> exec_attach_err ?e2 = Some ''exec is not running'')"
    using f2 f3 by simp
  from session_start_failure [OF h1 u1 d1, of sample_unmarshal]
  have a: "attachHandler ?r ?e1 =
       [Upgrade, Log (CreatingExec ''abc123''), ContainerExecCreate ''abc123'',
        Log (ExecCreateError ''no such container''),
        WriteMessage TextMessage ''exec create error: no such container'',
        Cancel, WsClose]"
    unfolding id using f1 by simp
  have run: "attach_session sample_unmarshal ?r ?e1 [Handler, Handler, Handler] =
       Some \<lparr>mainT = [Log (ExecCreateError ''no such container''),
                       WriteMessage TextMessage ''exec create error: no such container'',
                       Cancel, WsClose],
             outT = None, inT = None, wg = 0,
             trace = [Upgrade, Log (CreatingExec ''abc123''), ContainerExecCreate ''abc123'']\<rparr>"
    by (simp add: session_eval)
  from session_start_failure [OF h1 u2 d2, of sample_unmarshal]
  have b: "attachHandler ?r ?e2 =
       [Upgrade, Log (CreatingExec ''abc123''), ContainerExecCreate ''abc123'',
        ContainerExecAttach ''exec1'', Log (ExecAttachError ''exec is not running''),
        WriteMessage TextMessage ''exec attach error: exec is not running'',
        Cancel, WsClose]"
    unfolding id using f2 by simp
  show ?thesis
    using h1 u1 f1 a run f2 f3 b by (intro conjI)
qed

lemma proj_outbound_step:
  fixes f :: "event list \<Rightarrow> 'a list"
  assumes hom: "\<And>xs ys. f (xs @ ys) = f xs @ f ys"
    and main: "\<And>e. e \<in> set (session_calls cid x) \<Longrightarrow> f [e] = []"
    and other: "f pi = []"
    and inv: "session_inv cid x po pi c"
    and q: "case outT c of None \<Rightarrow> f (trace c) = [] | Some r \<Rightarrow> f (trace c) @ f r = f po"
    and st: "step po pi g c = Some c'"
  shows "case outT c' of None \<Rightarrow> f (trace c') = [] | Some r \<Rightarrow> f (trace c') @ f r = f po"
proof -
  have cons: "f (e # es) = f [e] @ f es" for e es
    using hom [of "[e]" es] by simp
  have snoc: "f (t @ [e]) = f t @ f [e]" for t e
    by (rule hom)
  show ?thesis
  proof (cases g)
    case Handler
    with st obtain e es where m: "mainT c = e # es"
      and c': "c' = c\<lparr>mainT := es, outT := (if e = GoOutbound then Some po else outT c),
          inT := (if e = GoInbound then Some pi else inT c), wg := wg_after e (wg c),
          trace := trace c @ [e]\<rparr>"
      by (auto simp add: step_def split: list.splits if_splits)
    from inv m have "suffix (e # es) (session_calls cid x)"
      by (simp add: session_inv_def)
    then have "e \<in> set (session_calls cid x)"
      by (auto simp add: suffix_def)
    then have fe: "f [e] = []"
      by (rule main)
    from inv m have "e = GoOutbound \<longrightarrow> outT c = None"
      by (simp add: session_inv_def)
    with q fe show ?thesis
      unfolding c' by (cases "outT c") (auto simp add: snoc)
  next
    case Outbound
    with st obtain e es where t: "outT c = Some (e # es)"
      and c': "c' = c\<lparr>outT := Some es, wg := wg_after e (wg c), trace := trace c @ [e]\<rparr>"
      by (auto simp add: step_def split: option.splits list.splits if_splits)
    from q t show ?thesis
      unfolding c' by (simp add: snoc cons [of e es])
  next
    case Inbound
    with st obtain e es where t: "inT c = Some (e # es)"
      and c': "c' = c\<lparr>inT := Some es, wg := wg_after e (wg c), trace := trace c @ [e]\<rparr>"
      by (auto simp add: step_def split: option.splits list.splits if_splits)
    from inv t have "suffix (e # es) pi"
      by (simp add: session_inv_def)
    then obtain d where "pi = d @ e # es"
      by (auto simp add: suffix_def)
    with other have "f d @ f [e] @ f es = []"
      using hom [of d "e # es"] cons [of e es] by simp
    then have fe: "f [e] = []"
      by simp
    with q show ?thesis
      unfolding c' by (cases "outT c") (simp_all add: snoc)
  qed
qed

lemma proj_outbound_run:
  fixes f :: "event list \<Rightarrow> 'a list"
  assumes hom: "\<And>xs ys. f (xs @ ys) = f xs @ f ys"
    and main: "\<And>e. e \<in> set (session_calls cid x) \<Longrightarrow> f [e] = []"
    and other: "f pi = []"
    and ok: "goroutine_ok po" "goroutine_ok pi"
  shows "session_inv cid x po pi c \<Longrightarrow>
         (case outT c of None \<Rightarrow> f (trace c) = [] | Some r \<Rightarrow> f (trace c) @ f r = f po) \<Longrightarrow>
         run po pi sched c = Some c' \<Longrightarrow>
         (case outT c' of None \<Rightarrow> f (trace c') = [] | Some r \<Rightarrow> f (trace c') @ f r = f po)"
proof (induction sched arbitrary: c)
  case Nil
  then show ?case by auto
next
  case (Cons g gs)
  from Cons.prems(3) obtain c1 where s: "step po pi g c = Some c1" and r: "run po pi gs c1 = Some c'"
    by (auto split: option.splits)
  have i1: "session_inv cid x po pi c1"
    using session_inv_step [OF Cons.prems(1) ok s] .
  have q1: "case outT c1 of None \<Rightarrow> f (trace c1) = [] | Some r \<Rightarrow> f (trace c1) @ f r = f po"
    using proj_outbound_step [OF hom main other Cons.prems(1,2) s] .
  from Cons.IH [OF i1 q1 r] show ?case .
qed

lemma proj_inbound_step:
  fixes f :: "event list \<Rightarrow> 'a list"
  assumes hom: "\<And>xs ys. f (xs @ ys) = f xs @ f ys"
    and main: "\<And>e. e \<in> set (session_calls cid x) \<Longrightarrow> f [e] = []"
    and other: "f po = []"
    and inv: "session_inv cid x po pi c"
    and q: "case inT c of None \<Rightarrow> f (trace c) = [] | Some r \<Rightarrow> f (trace c) @ f r = f pi"
    and st: "step po pi g c = Some c'"
  shows "case inT c' of None \<Rightarrow> f (trace c') = [] | Some r \<Rightarrow> f (trace c') @ f r = f pi"
proof -
  have cons: "f (e # es) = f [e] @ f es" for e es
    using hom [of "[e]" es] by simp
  have snoc: "f (t @ [e]) = f t @ f [e]" for t e
    by (rule hom)
  show ?thesis
  proof (cases g)
    case Handler
    with st obtain e es where m: "mainT c = e # es"
      and c': "c' = c\<lparr>mainT := es, outT := (if e = GoOutbound then Some po else outT c),
          inT := (if e = GoInbound then Some pi else inT c), wg := wg_after e (wg c),
          trace := trace c @ [e]\<rparr>"
      by (auto simp add: step_def split: list.splits if_splits)
    from inv m have "suffix (e # es) (session_calls cid x)"
      by (simp add: session_inv_def)
    then have "e \<in> set (session_calls cid x)"
      by (auto simp add: suffix_def)
    then have fe: "f [e] = []"
      by (rule main)
    from inv m have "e = GoInbound \<longrightarrow> inT c = None"
      by (simp add: session_inv_def)
    with q fe show ?thesis
      unfolding c' by (cases "inT c") (auto simp add: snoc)
  next
    case Inbound
    with st obtain e es where t: "inT c = Some (e # es)"
      and c': "c' = c\<lparr>inT := Some es, wg := wg_after e (wg c), trace := trace c @ [e]\<rparr>"
      by (auto simp add: step_def split: option.splits list.splits if_splits)
    from q t show ?thesis
      unfolding c' by (simp add: snoc cons [of e es])
  next
    case Outbound
    with st obtain e es where t: "outT c = Some (e # es)"
      and c': "c' = c\<lparr>outT := Some es, wg := wg_after e (wg c), trace := trace c @ [e]\<rparr>"
      by (auto simp add: step_def split: option.splits list.splits if_splits)
    from inv t have "suffix (e # es) po"
      by (simp add: session_inv_def)
    then obtain d where "po = d @ e # es"
      by (auto simp add: suffix_def)
    with other have "f d @ f [e] @ f es = []"
      using hom [of d "e # es"] cons [of e es] by simp
    then have fe: "f [e] = []"
      by simp
    with q show ?thesis
      unfolding c' by (cases "inT c") (simp_all add: snoc)
  qed
qed

lemma proj_inbound_run:
  fixes f :: "event list \<Rightarrow> 'a list"
  assumes hom: "\<And>xs ys. f (xs @ ys) = f xs @ f ys"
    and main: "\<And>e. e \<in> set (session_calls cid x) \<Longrightarrow> f [e] = []"
    and other: "f po = []"
    and ok: "goroutine_ok po" "goroutine_ok pi"
  shows "session_inv cid x po pi c \<Longrightarrow>
         (case inT c of None \<Rightarrow> f (trace c) = [] | Some r \<Rightarrow> f (trace c) @ f r = f pi) \<Longrightarrow>
         run po pi sched c = Some c' \<Longrightarrow>
         (case inT c' of None \<Rightarrow> f (trace c') = [] | Some r \<Rightarrow> f (trace c') @ f r = f pi)"
proof (induction sched arbitrary: c)
  case Nil
  then show ?case by auto
next
  case (Cons g gs)
  from Cons.prems(3) obtain c1 where s: "step po pi g c = Some c1" and r: "run po pi gs c1 = Some c'"
    by (auto split: option.splits)
  have i1: "session_inv cid x po pi c1"
    using session_inv_step [OF Cons.prems(1) ok s] .
  have q1: "case inT c1 of None \<Rightarrow> f (trace c1) = [] | Some r \<Rightarrow> f (trace c1) @ f r = f pi"
    using proj_inbound_step [OF hom main other Cons.prems(1,2) s] .
  from Cons.IH [OF i1 q1 r] show ?case .
qed

lemma inboundLoop_filter_resize:
  "conn_writes_of (fst (inboundLoop um x script)) =
     conn_writes_of (fst (inboundLoop um x (filter (\<lambda>m. \<not> resize_frame um m) script)))
   \<and> snd (inboundLoop um x script) =
       snd (inboundLoop um x (filter (\<lambda>m. \<not> resize_frame um m) script))"
proof (induction script)
  case Nil
  show ?case by simp
next
  case (Cons m rest)
  show ?case
  proof (cases "resize_frame um m")
    case True
    then show ?thesis
      using Cons resize_frame_continues [OF True, of x] resize_frame_no_write [OF True, of x]
      by (simp add: inboundLoop_Cons conn_writes_of_append del: inboundLoop.simps(2))
  next
    case False
    then show ?thesis
      using Cons
      by (simp add: inboundLoop_Cons conn_writes_of_append del: inboundLoop.simps(2))
  qed
qed

lemma frames_of_inboundIter: "frames_of (fst (inboundIter um x m)) = []"
  by (simp add: inboundIter_def Let_def split: option.splits)

lemma frames_of_inboundLoop: "frames_of (fst (inboundLoop um x script)) = []"
  by (induction script)
     (simp_all add: inboundLoop_Cons frames_of_append frames_of_inboundIter del: inboundLoop.simps(2))

lemma resizes_of_resize_frame:
  assumes "resize_frame um m" and "um (in_payload m) = Some msg"
  shows "resizes_of (fst (inboundIter um x m)) = [(x, Rows msg, Cols msg)]"
  using resize_frame_iter [OF assms(1), of x] assms(2)
  by (auto simp add: resizes_of_append resize_log_projections)

lemma frames_of_goroutine_calls: "frames_of (goroutine_calls r) = frames_of (fst r)"
  by (cases r; cases "snd r") (simp_all add: goroutine_calls_def frames_of_append)

lemma conn_writes_of_goroutine_calls: "conn_writes_of (goroutine_calls r) = conn_writes_of (fst r)"
  by (cases r; cases "snd r") (simp_all add: goroutine_calls_def conn_writes_of_append)

lemma conn_writes_of_outboundIter: "conn_writes_of (fst (outboundIter io)) = []"
  by (simp add: outboundIter_def Let_def split: option.splits read_error.splits)

lemma conn_writes_of_outboundLoop: "conn_writes_of (fst (outboundLoop s)) = []"
  by (induction s)
     (simp_all add: outboundLoop_Cons conn_writes_of_append conn_writes_of_outboundIter
        del: outboundLoop.simps(2))

lemma session_calls_quiet:
  assumes "e \<in> set (session_calls cid x)"
  shows "frames_of [e] = []" and "conn_writes_of [e] = []"
  using assms by (auto simp add: session_calls_def)

lemma session_streams:
  assumes "Get (req_query r) ''id'' \<noteq> []" and "upgrade_err env = None"
    and "exec_create env = Inr x" and "exec_attach_err env = None"
    and "attach_session um r env sched = Some c" and "mainT c = []"
  shows "frames_of (trace c) = frames_of (fst (outboundLoop (out_script env)))"
    and "conn_writes_of (trace c) = conn_writes_of (fst (inboundLoop um x (in_script env)))"
proof -
  let ?cid = "Get (req_query r) ''id''"
  let ?po = "outbound_calls env"
  let ?pi = "inbound_calls um env"
  let ?c0 = "\<lparr>mainT = session_calls ?cid x, outT = None, inT = None, wg = 0, trace = []\<rparr>"
  have run: "run ?po ?pi sched ?c0 = Some c"
    using assms(5) attachHandler_session [OF assms(1-4)] by (simp add: attach_session_def)
  have inv: "session_inv ?cid x ?po ?pi c"
    using session_inv_run [OF goroutine_ok_outbound goroutine_ok_inbound session_inv_init run] .
  with assms(6) have fin: "outT c = Some []" "inT c = Some []"
    by (simp_all add: session_inv_def)
  have fi: "frames_of ?pi = []"
    using assms(3) by (simp add: inbound_calls_def frames_of_goroutine_calls frames_of_inboundLoop)
  have co: "conn_writes_of ?po = []"
    by (simp add: outbound_calls_def conn_writes_of_goroutine_calls conn_writes_of_outboundLoop)
  have "case outT c of None \<Rightarrow> frames_of (trace c) = []
        | Some ro \<Rightarrow> frames_of (trace c) @ frames_of ro = frames_of ?po"
    using proj_outbound_run [of frames_of ?cid x ?pi ?po ?c0 sched c,
        OF frames_of_append session_calls_quiet(1) fi goroutine_ok_outbound goroutine_ok_inbound
          session_inv_init _ run]
    by simp
  with fin show "frames_of (trace c) = frames_of (fst (outboundLoop (out_script env)))"
    by (simp add: outbound_calls_def frames_of_goroutine_calls)
  have "case inT c of None \<Rightarrow> conn_writes_of (trace c) = []
        | Some ri \<Rightarrow> conn_writes_of (trace c) @ conn_writes_of ri = conn_writes_of ?pi"
    using proj_inbound_run [of conn_writes_of ?cid x ?po ?pi ?c0 sched c,
        OF conn_writes_of_append session_calls_quiet(2) co goroutine_ok_outbound goroutine_ok_inbound
          session_inv_init _ run]
    by simp
  with fin assms(3)
  show "conn_writes_of (trace c) = conn_writes_of (fst (inboundLoop um x (in_script env)))"
    by (simp add: inbound_calls_def conn_writes_of_goroutine_calls)
qed

text \<open>
  Claim C9. Two resize frames with the same payload, read one after the other while the
  loop is running, give two \<^verbatim>\<open>ContainerExecResize\<close> calls with the same arguments. Taking
  the resize frames out of the inbound script changes neither the payloads written to the
  exec input nor how the loop ends. For a whole session that has run to its end, the
  frames written to the client and the payloads written to the exec input are the same
  as in a finished session whose inbound script has the resize frames removed.
\<close>

theorem repeated_resize_frames:
  "(\<forall>pre m1 m2 msg rest.
      snd (inboundLoop um x pre) = Blocked \<and> resize_frame um m1 \<and> resize_frame um m2 \<and>
      in_payload m2 = in_payload m1 \<and> um (in_payload m1) = Some msg \<longrightarrow>
      resizes_of (fst (inboundLoop um x (pre @ m1 # m2 # rest))) =
        resizes_of (fst (inboundLoop um x pre)) @
        [(x, Rows msg, Cols msg), (x, Rows msg, Cols msg)] @
        resizes_of (fst (inboundLoop um x rest)))
   \<and> conn_writes_of (fst (inboundLoop um x script)) =
       conn_writes_of (fst (inboundLoop um x (filter (\<lambda>m. \<not> resize_frame um m) script)))
   \<and> snd (inboundLoop um x script) =
       snd (inboundLoop um x (filter (\<lambda>m. \<not> resize_frame um m) script))
   \<and> (\<forall>r env sched c sched' c'.
        Get (req_query r) ''id'' \<noteq> [] \<and> upgrade_err env = None \<and> exec_create env = Inr x \<and>
        exec_attach_err env = None \<and>
        attach_session um r env sched = Some c \<and> mainT c = [] \<and>
        attach_session um r
          (env\<lparr>in_script := filter (\<lambda>m. \<not> resize_frame um m) (in_script env)\<rparr>) sched' = Some c' \<and>
        mainT c' = [] \<longrightarrow>
        frames_of (trace c) = frames_of (trace c') \<and>
        conn_writes_of (trace c) = conn_writes_of (trace c'))"
proof -
  have a: "resizes_of (fst (inboundLoop um x (pre @ m1 # m2 # rest))) =
        resizes_of (fst (inboundLoop um x pre)) @
        [(x, Rows msg, Cols msg), (x, Rows msg, Cols msg)] @
        resizes_of (fst (inboundLoop um x rest))"
    if h: "snd (inboundLoop um x pre) = Blocked \<and> resize_frame um m1 \<and> resize_frame um m2 \<and>
      in_payload m2 = in_payload m1 \<and> um (in_payload m1) = Some msg" for pre m1 m2 msg rest
  proof -
    from h have r1: "resize_frame um m1" and r2: "resize_frame um m2"
      and u1: "um (in_payload m1) = Some msg" and u2: "um (in_payload m2) = Some msg"
      and b: "snd (inboundLoop um x pre) = Blocked"
      by simp_all
    have "inboundLoop um x (m1 # m2 # rest) =
            (fst (inboundIter um x m1) @ fst (inboundIter um x m2) @ fst (inboundLoop um x rest),
             snd (inboundLoop um x rest))"
      using resize_frame_continues [OF r1, of x] resize_frame_continues [OF r2, of x]
      by (simp add: inboundLoop_Cons del: inboundLoop.simps(2))
    then show ?thesis
      using b resizes_of_resize_frame [OF r1 u1, of x] resizes_of_resize_frame [OF r2 u2, of x]
      by (simp add: inboundLoop_append resizes_of_append del: inboundLoop.simps(2))
  qed
  have s: "frames_of (trace c) = frames_of (trace c') \<and>
        conn_writes_of (trace c) = conn_writes_of (trace c')"
    if h: "Get (req_query r) ''id'' \<noteq> [] \<and> upgrade_err env = None \<and> exec_create env = Inr x \<and>
        exec_attach_err env = None \<and>
        attach_session um r env sched = Some c \<and> mainT c = [] \<and>
        attach_session um r
          (env\<lparr>in_script := filter (\<lambda>m. \<not> resize_frame um m) (in_script env)\<rparr>) sched' = Some c' \<and>
        mainT c' = []" for r env sched c sched' c'
  proof -
    let ?env' = "env\<lparr>in_script := filter (\<lambda>m. \<not> resize_frame um m) (in_script env)\<rparr>"
    from h have h1: "Get (req_query r) ''id'' \<noteq> []" and h2: "upgrade_err env = None"
      and h3: "exec_create env = Inr x" and h4: "exec_attach_err env = None"
      and h5: "attach_session um r env sched = Some c" and h6: "mainT c = []"
      and h7: "attach_session um r ?env' sched' = Some c'" and h8: "mainT c' = []"
      by simp_all
    have g2: "upgrade_err ?env' = None" and g3: "exec_create ?env' = Inr x"
      and g4: "exec_attach_err ?env' = None"
      using h2 h3 h4 by simp_all
    from session_streams [OF h1 h2 h3 h4 h5 h6] session_streams [OF h1 g2 g3 g4 h7 h8]
      inboundLoop_filter_resize [of um x "in_script env"]
    show ?thesis
      by simp
  qed
  show ?thesis
    using a inboundLoop_filter_resize [of um x script] s by blast
qed

lemma resize_twice_filtered:
  "filter (\<lambda>m. \<not> resize_frame sample_unmarshal m) (in_script resize_twice_env) =
     [binary_frame ''ls'',
      \<lparr>in_mt = - 1, in_payload = [], in_err = Some (CloseError 1000),
         resize_err = None, conn_err = None\<rparr>]"
  by (simp add: resize_twice_env_def resize_frame_def sample_unmarshal_def sample_env_def
      text_frame_def binary_frame_def TextMessage_def CloseMessage_def)

lemmas resize_twice_eval =
  session_eval resize_twice_env_def text_frame_def binary_frame_def sample_unmarshal_def
  TextMessage_def BinaryMessage_def

theorem repeated_resize_frames_witness:
  \<open>snd (inboundLoop sample_unmarshal ''exec1'' [binary_frame ''ls'']) = Blocked
   \<and> resize_frame sample_unmarshal (text_frame ''{"type":"resize","cols":120,"rows":40}'')
   \<and> sample_unmarshal (in_payload (text_frame ''{"type":"resize","cols":120,"rows":40}'')) =
       Some \<lparr>Type = ''resize'', Cols = 120, Rows = 40\<rparr>
   \<and> resizes_of (fst (inboundLoop sample_unmarshal ''exec1''
        ([binary_frame ''ls''] @
         text_frame ''{"type":"resize","cols":120,"rows":40}'' #
         text_frame ''{"type":"resize","cols":120,"rows":40}'' #
         [binary_frame ''pwd'']))) =
       [(''exec1'', 40, 120), (''exec1'', 40, 120)]
   \<and> Get (req_query (sample_request ''GET'' [(''id'', ''abc123'')])) ''id'' \<noteq> []
   \<and> upgrade_err resize_twice_env = None \<and> exec_create resize_twice_env = Inr ''exec1''
   \<and> exec_attach_err resize_twice_env = None
   \<and> attach_session sample_unmarshal (sample_request ''GET'' [(''id'', ''abc123'')])
        resize_twice_env resize_twice_schedule \<noteq> None
   \<and> mainT (the (attach_session sample_unmarshal (sample_request ''GET'' [(''id'', ''abc123'')])
        resize_twice_env resize_twice_schedule)) = []
   \<and> attach_session sample_unmarshal (sample_request ''GET'' [(''id'', ''abc123'')])
        (resize_twice_env\<lparr>in_script :=
           filter (\<lambda>m. \<not> resize_frame sample_unmarshal m) (in_script resize_twice_env)\<rparr>)
        resize_free_schedule \<noteq> None
   \<and> mainT (the (attach_session sample_unmarshal (sample_request ''GET'' [(''id'', ''abc123'')])
        (resize_twice_env\<lparr>in_script :=
           filter (\<lambda>m. \<not> resize_frame sample_unmarshal m) (in_script resize_twice_env)\<rparr>)
        resize_free_schedule)) = []
   \<and> resizes_of (trace (the (attach_session sample_unmarshal
        (sample_request ''GET'' [(''id'', ''abc123'')]) resize_twice_env resize_twice_schedule))) =
       [(''exec1'', 40, 120), (''exec1'', 40, 120)]
   \<and> frames_of (trace (the (attach_session sample_unmarshal
        (sample_request ''GET'' [(''id'', ''abc123'')]) resize_twice_env resize_twice_schedule))) =
       [(BinaryMessage, ''hi'')]
   \<and> conn_writes_of (trace (the (attach_session sample_unmarshal
        (sample_request ''GET'' [(''id'', ''abc123'')]) resize_twice_env resize_twice_schedule))) =
       [''ls'']\<close>
proof -
  let ?m = \<open>text_frame ''{"type":"resize","cols":120,"rows":40}''\<close>
  let ?msg = "\<lparr>Type = ''resize'', Cols = 120, Rows = 40\<rparr>"
  let ?r = "sample_request ''GET'' [(''id'', ''abc123'')]"
  let ?env' = "resize_twice_env\<lparr>in_script :=
      filter (\<lambda>m. \<not> resize_frame sample_unmarshal m) (in_script resize_twice_env)\<rparr>"
  let ?a = "attach_session sample_unmarshal ?r resize_twice_env resize_twice_schedule"
  let ?b = "attach_session sample_unmarshal ?r ?env' resize_free_schedule"
  have pre: "inboundLoop sample_unmarshal ''exec1'' [binary_frame ''ls''] =
               ([ReadMessage BinaryMessage ''ls'' None, ConnWrite ''ls''], Blocked)"
    by (simp add: inbound_eval)
  have rest: "inboundLoop sample_unmarshal ''exec1'' [binary_frame ''pwd''] =
               ([ReadMessage BinaryMessage ''pwd'' None, ConnWrite ''pwd''], Blocked)"
    by (simp add: inbound_eval)
  have h1: "snd (inboundLoop sample_unmarshal ''exec1'' [binary_frame ''ls'']) = Blocked"
    by (simp only: pre snd_conv)
  have h2: "resize_frame sample_unmarshal ?m"
    by (simp add: resize_frame_def inbound_eval sample_unmarshal_def)
  have h3: "sample_unmarshal (in_payload ?m) = Some ?msg"
    by (simp add: text_frame_def sample_unmarshal_def)
  from repeated_resize_frames [of sample_unmarshal "''exec1''" "[]"] h1 h2 h3
  have "resizes_of (fst (inboundLoop sample_unmarshal ''exec1''
          ([binary_frame ''ls''] @ ?m # ?m # [binary_frame ''pwd'']))) =
        resizes_of (fst (inboundLoop sample_unmarshal ''exec1'' [binary_frame ''ls''])) @
        [(''exec1'', Rows ?msg, Cols ?msg), (''exec1'', Rows ?msg, Cols ?msg)] @
        resizes_of (fst (inboundLoop sample_unmarshal ''exec1'' [binary_frame ''pwd'']))"
    by blast
  then have a: "resizes_of (fst (inboundLoop sample_unmarshal ''exec1''
          ([binary_frame ''ls''] @ ?m # ?m # [binary_frame ''pwd'']))) =
        [(''exec1'', 40, 120), (''exec1'', 40, 120)]"
    unfolding pre rest by simp
  have g1: "Get (req_query ?r) ''id'' \<noteq> []"
    by (simp add: sample_request_def Get_def)
  have g2: "upgrade_err resize_twice_env = None" and g3: "exec_create resize_twice_env = Inr ''exec1''"
    and g4: "exec_attach_err resize_twice_env = None"
    by (simp_all add: resize_twice_env_def sample_env_def)
  have ra: "?a \<noteq> None" and ma: "mainT (the ?a) = []"
    and za: "resizes_of (trace (the ?a)) = [(''exec1'', 40, 120), (''exec1'', 40, 120)]"
    by (simp_all add: resize_twice_eval resize_twice_schedule_def)
  have rb: "?b \<noteq> None" and mb: "mainT (the ?b) = []"
    and fb: "frames_of (trace (the ?b)) = [(BinaryMessage, ''hi'')]"
    and cb: "conn_writes_of (trace (the ?b)) = [''ls'']"
    unfolding resize_twice_filtered
    by (simp_all add: resize_twice_eval resize_free_schedule_def)
  from ra have sa: "?a = Some (the ?a)" by simp
  from rb have sb: "?b = Some (the ?b)" by simp
  from repeated_resize_frames [of sample_unmarshal "''exec1''" "[]"] g1 g2 g3 g4 sa ma sb mb
  have "frames_of (trace (the ?a)) = frames_of (trace (the ?b)) \<and>
        conn_writes_of (trace (the ?a)) = conn_writes_of (trace (the ?b))"
    by blast
  with fb cb have fa: "frames_of (trace (the ?a)) = [(BinaryMessage, ''hi'')]"
    and ca: "conn_writes_of (trace (the ?a)) = [''ls'']"
    by simp_all
  show ?thesis
    using h1 h2 h3 a g1 g2 g3 g4 ra ma rb mb za fa ca by (intro conjI)
qed

end
